theory Spec2Isabelle
  imports Main "HOL-Library.Word"
begin

section \<open>A FAT12 root-directory reader: \<open>src/tools/fat/fat.c\<close>\<close>

text \<open>
  The program decodes the boot sector of a disk image, loads the first file allocation
  table and the root directory, and searches the root directory for an 11-byte name.
  Its three globals and the stream it reads are passed explicitly here. The C integer
  types keep their widths; the host is taken to be little-endian (the structures are
  overlaid on the bytes read), with 32-bit \<open>int\<close>.
\<close>

subsection \<open>Machine types\<close>

type_synonym uint8_t = "8 word"
type_synonym uint16_t = "16 word"
type_synonym uint32_t = "32 word"
type_synonym bytes = "uint8_t list"

definition INT_MAX :: int where
  "INT_MAX = 2147483647"

text \<open>
  What the C standard leaves undefined, or what traps, is a fault of the model.
  \<open>OutOfBounds\<close> is an access outside the object a pointer refers to, a read or a write.
\<close>

datatype fault = SignedOverflow | DivisionByZero | NullDereference | OutOfBounds

subsection \<open>Little-endian object representation\<close>

text \<open>
  \<open>le16\<close> and \<open>le32\<close> read the first 2 and 4 bytes; the structures below always
  hand them that many, so the last equation of each is never reached by the program.
\<close>

fun le16 :: "bytes \<Rightarrow> uint16_t" where
  "le16 (b0 # b1 # _) = word_cat b1 b0"
| "le16 _ = 0"

fun le32 :: "bytes \<Rightarrow> uint32_t" where
  "le32 (b0 # b1 # b2 # b3 # _) = word_cat (word_cat b3 b2 :: uint16_t) (word_cat b1 b0 :: uint16_t)"
| "le32 _ = 0"

definition bytes_of_u16 :: "uint16_t \<Rightarrow> bytes" where
  "bytes_of_u16 w = [ucast w, ucast (drop_bit 8 w)]"

definition bytes_of_u32 :: "uint32_t \<Rightarrow> bytes" where
  "bytes_of_u32 w = [ucast w, ucast (drop_bit 8 w), ucast (drop_bit 16 w), ucast (drop_bit 24 w)]"

text \<open>Readers that consume the next member of a packed structure.\<close>

definition get_u8 :: "bytes \<Rightarrow> uint8_t \<times> bytes" where
  "get_u8 m = (case m of [] \<Rightarrow> (0, []) | b # rest \<Rightarrow> (b, rest))"

definition get_u16 :: "bytes \<Rightarrow> uint16_t \<times> bytes" where
  "get_u16 m = (le16 (take 2 m), drop 2 m)"

definition get_u32 :: "bytes \<Rightarrow> uint32_t \<times> bytes" where
  "get_u32 m = (le32 (take 4 m), drop 4 m)"

definition get_array :: "nat \<Rightarrow> bytes \<Rightarrow> bytes \<times> bytes" where
  "get_array n m = (take n m, drop n m)"

subsection \<open>\<open>BootSector\<close>\<close>

record BootSector =
  bootJumpInstruction :: bytes
  oemIdentifier :: bytes
  bytesPerSector :: uint16_t
  sectorsPerCluster :: uint8_t
  reservedSectors :: uint16_t
  fatCount :: uint8_t
  dirEntryCount :: uint16_t
  totalSectors :: uint16_t
  mediaDescriptorType :: uint8_t
  sectorsPerFat :: uint16_t
  sectorsPerTrack :: uint16_t
  heads :: uint16_t
  hiddenSectors :: uint32_t
  largeSectorCount :: uint32_t
  driveNumber :: uint8_t
  reserved_bs :: uint8_t
  signature :: uint8_t
  volumeID :: uint32_t
  volumeLabel :: bytes
  systemID :: bytes

text \<open>\<open>sizeof(BootSector)\<close>: the structure is packed, so it is the sum of its members.\<close>

definition sizeof_BootSector :: nat where
  "sizeof_BootSector = 3 + 8 + 2 + 1 + 2 + 1 + 2 + 2 + 1 + 2 + 2 + 2 + 4 + 4 + 1 + 1 + 1 + 4 + 11 + 8"

text \<open>The structure seen through its bytes: members are laid out in declaration order.\<close>

definition BootSector_of_bytes :: "bytes \<Rightarrow> BootSector" where
  "BootSector_of_bytes m0 =
    (let (f1, m1) = get_array 3 m0;
         (f2, m2) = get_array 8 m1;
         (f3, m3) = get_u16 m2;
         (f4, m4) = get_u8 m3;
         (f5, m5) = get_u16 m4;
         (f6, m6) = get_u8 m5;
         (f7, m7) = get_u16 m6;
         (f8, m8) = get_u16 m7;
         (f9, m9) = get_u8 m8;
         (f10, m10) = get_u16 m9;
         (f11, m11) = get_u16 m10;
         (f12, m12) = get_u16 m11;
         (f13, m13) = get_u32 m12;
         (f14, m14) = get_u32 m13;
         (f15, m15) = get_u8 m14;
         (f16, m16) = get_u8 m15;
         (f17, m17) = get_u8 m16;
         (f18, m18) = get_u32 m17;
         (f19, m19) = get_array 11 m18;
         (f20, m20) = get_array 8 m19
     in \<lparr> bootJumpInstruction = f1, oemIdentifier = f2, bytesPerSector = f3,
          sectorsPerCluster = f4, reservedSectors = f5, fatCount = f6,
          dirEntryCount = f7, totalSectors = f8, mediaDescriptorType = f9,
          sectorsPerFat = f10, sectorsPerTrack = f11, heads = f12,
          hiddenSectors = f13, largeSectorCount = f14, driveNumber = f15,
          reserved_bs = f16, signature = f17, volumeID = f18,
          volumeLabel = f19, systemID = f20 \<rparr>)"

text \<open>An array member occupies exactly its declared length.\<close>

definition array_bytes :: "nat \<Rightarrow> bytes \<Rightarrow> bytes" where
  "array_bytes n a = take n a @ replicate (n - length a) 0"

definition bytes_of_BootSector :: "BootSector \<Rightarrow> bytes" where
  "bytes_of_BootSector b =
     array_bytes 3 (bootJumpInstruction b) @ array_bytes 8 (oemIdentifier b)
     @ bytes_of_u16 (bytesPerSector b) @ [sectorsPerCluster b]
     @ bytes_of_u16 (reservedSectors b) @ [fatCount b]
     @ bytes_of_u16 (dirEntryCount b) @ bytes_of_u16 (totalSectors b)
     @ [mediaDescriptorType b] @ bytes_of_u16 (sectorsPerFat b)
     @ bytes_of_u16 (sectorsPerTrack b) @ bytes_of_u16 (heads b)
     @ bytes_of_u32 (hiddenSectors b) @ bytes_of_u32 (largeSectorCount b)
     @ [driveNumber b] @ [reserved_bs b] @ [signature b]
     @ bytes_of_u32 (volumeID b) @ array_bytes 11 (volumeLabel b)
     @ array_bytes 8 (systemID b)"

subsection \<open>\<open>DirectoryEntry\<close>\<close>

record DirectoryEntry =
  de_name :: bytes
  attributes :: uint8_t
  reserved_de :: uint8_t
  createdTimeTenths :: uint8_t
  creationTime :: uint16_t
  creationDate :: uint16_t
  accessedDate :: uint16_t
  firstClusterHigh :: uint16_t
  modifiedTime :: uint16_t
  modifiedDate :: uint16_t
  firstClusterLow :: uint16_t
  de_size :: uint32_t

definition sizeof_DirectoryEntry :: nat where
  "sizeof_DirectoryEntry = 11 + 1 + 1 + 1 + 2 + 2 + 2 + 2 + 2 + 2 + 2 + 4"

definition DirectoryEntry_of_bytes :: "bytes \<Rightarrow> DirectoryEntry" where
  "DirectoryEntry_of_bytes m0 =
    (let (f1, m1) = get_array 11 m0;
         (f2, m2) = get_u8 m1;
         (f3, m3) = get_u8 m2;
         (f4, m4) = get_u8 m3;
         (f5, m5) = get_u16 m4;
         (f6, m6) = get_u16 m5;
         (f7, m7) = get_u16 m6;
         (f8, m8) = get_u16 m7;
         (f9, m9) = get_u16 m8;
         (f10, m10) = get_u16 m9;
         (f11, m11) = get_u16 m10;
         (f12, m12) = get_u32 m11
     in \<lparr> de_name = f1, attributes = f2, reserved_de = f3, createdTimeTenths = f4,
          creationTime = f5, creationDate = f6, accessedDate = f7,
          firstClusterHigh = f8, modifiedTime = f9, modifiedDate = f10,
          firstClusterLow = f11, de_size = f12 \<rparr>)"

text \<open>\<open>g_RootDirectory[i]\<close>: the \<open>i\<close>-th record of the buffer the pointer refers to.\<close>

definition RootDirectory_at :: "bytes \<Rightarrow> nat \<Rightarrow> DirectoryEntry" where
  "RootDirectory_at buf i =
     DirectoryEntry_of_bytes (take sizeof_DirectoryEntry (drop (sizeof_DirectoryEntry * i) buf))"

subsection \<open>The C library: streams, allocation, comparison\<close>

text \<open>
  A stream opened for reading is its contents and its position; \<open>file_seekable\<close> is
  false for a stream that cannot be positioned (a pipe), on which \<open>fseek\<close> fails.
\<close>

record FILE =
  file_data :: bytes
  file_pos :: nat
  file_seekable :: bool

text \<open>\<open>fseek(stream, offset, SEEK_SET)\<close>: the return value and the stream.\<close>

definition fseek :: "FILE \<Rightarrow> int \<Rightarrow> int \<times> FILE" where
  "fseek stream offset =
     (if file_seekable stream \<and> 0 \<le> offset
      then (0, stream\<lparr>file_pos := nat offset\<rparr>)
      else (- 1, stream))"

text \<open>
  \<open>fread(ptr, size, nmemb, stream)\<close>: the number of complete elements read, the object
  at \<open>ptr\<close> afterwards and the stream. A zero \<open>size\<close> or \<open>nmemb\<close> reads nothing and
  returns 0. The bytes read replace the front of the object; when there are more of
  them than the object has bytes, the call writes past the object, which is the fault
  \<open>OutOfBounds\<close>.
\<close>

definition fread :: "bytes \<Rightarrow> nat \<Rightarrow> nat \<Rightarrow> FILE \<Rightarrow> fault + (nat \<times> bytes \<times> FILE)" where
  "fread ptr sz nmemb stream =
     (if sz = 0 \<or> nmemb = 0 then Inr (0, ptr, stream)
      else let got = take (sz * nmemb) (drop (file_pos stream) (file_data stream))
           in if length ptr < length got then Inl OutOfBounds
              else Inr (length got div sz, got @ drop (length got) ptr,
                        stream\<lparr>file_pos := file_pos stream + length got\<rparr>))"

text \<open>
  \<open>malloc(n)\<close> is taken to succeed and returns an object of \<open>n\<close> bytes. Its contents
  are indeterminate in C; the program reads them only after \<open>fread\<close> has filled the
  object.
\<close>

definition malloc :: "nat \<Rightarrow> bytes" where
  "malloc n = replicate n 0"

text \<open>\<open>memcmp(a, b, n) == 0\<close>.\<close>

definition memcmp_eq :: "bytes \<Rightarrow> bytes \<Rightarrow> nat \<Rightarrow> bool" where
  "memcmp_eq a b n = (take n a = take n b)"

subsection \<open>Global variables\<close>

record globals =
  g_BootSector :: BootSector
  g_Fat :: "bytes option"
  g_RootDirectory :: "bytes option"

text \<open>Static storage is zero-initialised; both pointers start as \<open>NULL\<close>.\<close>

definition initial_globals :: globals where
  "initial_globals =
     \<lparr> g_BootSector = BootSector_of_bytes (replicate sizeof_BootSector 0),
       g_Fat = None, g_RootDirectory = None \<rparr>"

subsection \<open>\<open>ReadBootSector\<close>\<close>

text \<open>The destination is the object \<open>g_BootSector\<close> itself, \<open>sizeof(g_BootSector)\<close> bytes.\<close>

definition ReadBootSector :: "FILE \<Rightarrow> globals \<Rightarrow> fault + (bool \<times> FILE \<times> globals)" where
  "ReadBootSector disk g =
     (case fread (bytes_of_BootSector (g_BootSector g)) sizeof_BootSector 1 disk of
        Inl f \<Rightarrow> Inl f
      | Inr (n, obj, disk') \<Rightarrow> Inr (n > 0, disk', g\<lparr>g_BootSector := BootSector_of_bytes obj\<rparr>))"

subsection \<open>\<open>ReadDiskSectors\<close>\<close>

text \<open>
  \<open>lba\<close> is a \<open>uint8_t\<close> parameter and \<open>count\<close> a \<open>uint32_t\<close> one. The offset
  \<open>lba * g_BootSector.bytesPerSector\<close> is computed in \<open>int\<close> and is at most
  \<open>255 * 65535\<close>. The second conjunct of \<open>ok\<close> is evaluated only if the first holds.
  \<open>bufferOut\<close> is the object the caller allocated; \<open>fread\<close> faults if it is too small
  for the bytes read.
\<close>

definition ReadDiskSectors :: "FILE \<Rightarrow> uint8_t \<Rightarrow> uint32_t \<Rightarrow> bytes \<Rightarrow> globals \<Rightarrow> fault + (bool \<times> FILE \<times> bytes)" where
  "ReadDiskSectors disk lba cnt bufferOut g =
     (let (rc, disk1) = fseek disk (uint lba * uint (bytesPerSector (g_BootSector g)))
      in if rc \<noteq> 0 then Inr (False, disk1, bufferOut)
         else case fread bufferOut (unat (bytesPerSector (g_BootSector g))) (unat cnt) disk1 of
                Inl f \<Rightarrow> Inl f
              | Inr (n, buf, disk2) \<Rightarrow> Inr (n = unat cnt, disk2, buf))"

subsection \<open>\<open>ReadFAT\<close>\<close>

text \<open>
  The allocation size \<open>sectorsPerFat * bytesPerSector\<close> is an \<open>int\<close> product of two
  promoted \<open>uint16_t\<close> values; beyond \<open>INT_MAX\<close> it is undefined, which is the fault
  \<open>SignedOverflow\<close>. \<open>reservedSectors\<close> is converted to the \<open>uint8_t\<close> parameter of
  \<open>ReadDiskSectors\<close>, and \<open>sectorsPerFat\<close> to the \<open>uint32_t\<close> one.
\<close>

definition ReadFAT :: "FILE \<Rightarrow> globals \<Rightarrow> fault + (bool \<times> FILE \<times> globals)" where
  "ReadFAT disk g =
     (let bs = g_BootSector g;
          n = uint (sectorsPerFat bs) * uint (bytesPerSector bs)
      in if n > INT_MAX then Inl SignedOverflow
         else case ReadDiskSectors disk (ucast (reservedSectors bs))
                     (ucast (sectorsPerFat bs)) (malloc (nat n)) g of
                Inl f \<Rightarrow> Inl f
              | Inr (ok, disk', buf) \<Rightarrow> Inr (ok, disk', g\<lparr>g_Fat := Some buf\<rparr>))"

subsection \<open>\<open>ReadRootDirectory\<close>\<close>

text \<open>
  The locals \<open>lba\<close>, \<open>size\<close> and \<open>sectors\<close>, all \<open>uint32_t\<close>. The sum for \<open>lba\<close>
  is computed in \<open>int\<close> and stored; \<open>size\<close> is \<open>sizeof(DirectoryEntry)\<close> times the
  entry count. The division and the remainder trap when \<open>bytesPerSector\<close> is 0, which
  \<open>ReadRootDirectory\<close> turns into the fault \<open>DivisionByZero\<close> before \<open>sectors\<close> is used.
  \<open>lba\<close> is converted to the \<open>uint8_t\<close> parameter of \<open>ReadDiskSectors\<close>.
\<close>

definition RootDirectory_lba :: "BootSector \<Rightarrow> uint32_t" where
  "RootDirectory_lba bs =
     word_of_int (uint (reservedSectors bs) + uint (sectorsPerFat bs) * uint (fatCount bs))"

definition RootDirectory_size :: "BootSector \<Rightarrow> uint32_t" where
  "RootDirectory_size bs = word_of_nat (sizeof_DirectoryEntry * unat (dirEntryCount bs))"

definition RootDirectory_sectors :: "BootSector \<Rightarrow> uint32_t" where
  "RootDirectory_sectors bs =
     (let sz = RootDirectory_size bs;
          sectors = sz div ucast (bytesPerSector bs)
      in if sz mod ucast (bytesPerSector bs) > 0 then sectors + 1 else sectors)"

definition ReadRootDirectory :: "FILE \<Rightarrow> globals \<Rightarrow> fault + (bool \<times> FILE \<times> globals)" where
  "ReadRootDirectory disk g =
     (let bs = g_BootSector g;
          lba = RootDirectory_lba bs
      in if bytesPerSector bs = 0 then Inl DivisionByZero
         else let sectors = RootDirectory_sectors bs
              in case ReadDiskSectors disk (ucast lba) sectors
                        (malloc (unat (sectors * ucast (bytesPerSector bs)))) g of
                   Inl f \<Rightarrow> Inl f
                 | Inr (ok, disk', buf) \<Rightarrow> Inr (ok, disk', g\<lparr>g_RootDirectory := Some buf\<rparr>))"

subsection \<open>\<open>FindFile\<close>\<close>

text \<open>
  The loop over \<open>uint32_t i\<close>. The result is the index of the entry whose address is
  returned, or \<open>None\<close> for \<open>NULL\<close>. Each step reads the 11 bytes of
  \<open>g_RootDirectory[i].name\<close>: through a null pointer that is the fault
  \<open>NullDereference\<close>, past the end of the buffer the fault \<open>OutOfBounds\<close>. \<open>name\<close>
  must point to at least 11 bytes.
\<close>

function FindFile_from :: "bytes \<Rightarrow> globals \<Rightarrow> uint32_t \<Rightarrow> fault + nat option" where
  "FindFile_from name g i =
     (if i < ucast (dirEntryCount (g_BootSector g)) then
        (case g_RootDirectory g of
           None \<Rightarrow> Inl NullDereference
         | Some buf \<Rightarrow>
             if sizeof_DirectoryEntry * unat i + 11 \<le> length buf then
               if memcmp_eq name (de_name (RootDirectory_at buf (unat i))) 11
               then Inr (Some (unat i))
               else FindFile_from name g (i + 1)
             else Inl OutOfBounds)
      else Inr None)"
  by pat_completeness auto
termination
proof (relation "measure (\<lambda>(name, g, i). unat (ucast (dirEntryCount (g_BootSector g)) :: uint32_t) - unat i)")
  show "wf (measure (\<lambda>(name, g, i). unat (ucast (dirEntryCount (g_BootSector g)) :: uint32_t) - unat i))"
    by simp
next
  fix name :: bytes and g :: globals and i :: uint32_t and buf :: bytes
  assume lt: "i < ucast (dirEntryCount (g_BootSector g))"
  then have "1 + i \<noteq> 0"
    by (metis eq_neg_iff_add_eq_0 verit_minus_simplify(4) word_order.extremum_strict)
  then have "unat (i + 1) = Suc (unat i)"
    by (simp add: unatSuc add.commute)
  moreover from lt have "unat i < unat (ucast (dirEntryCount (g_BootSector g)) :: uint32_t)"
    by (simp add: word_less_nat_alt)
  ultimately show "((name, g, i + 1), (name, g, i))
      \<in> measure (\<lambda>(name, g, i). unat (ucast (dirEntryCount (g_BootSector g)) :: uint32_t) - unat i)"
    by simp
qed

declare FindFile_from.simps [simp del]

definition FindFile :: "bytes \<Rightarrow> globals \<Rightarrow> fault + nat option" where
  "FindFile name g = FindFile_from name g 0"

subsection \<open>\<open>main\<close>\<close>

text \<open>
  \<open>opened\<close> is the result of \<open>fopen(argv[1], "rb")\<close> and \<open>name\<close> the bytes at
  \<open>argv[2]\<close>. The result is the exit status with the stream and the globals at exit;
  \<open>free\<close> leaves both pointers as they are. The messages printed are not modelled. A
  fault in a stage ends the run with that fault.
\<close>

definition main :: "nat \<Rightarrow> FILE option \<Rightarrow> bytes \<Rightarrow> globals \<Rightarrow> fault + (int \<times> FILE option \<times> globals)" where
  "main argc opened name g =
     (if argc < 3 then Inr (- 1, None, g)
      else case opened of
        None \<Rightarrow> Inr (- 1, None, g)
      | Some disk \<Rightarrow>
          case ReadBootSector disk g of
            Inl f \<Rightarrow> Inl f
          | Inr (ok1, disk1, g1) \<Rightarrow>
              if \<not> ok1 then Inr (- 2, Some disk1, g1)
              else case ReadFAT disk1 g1 of
                Inl f \<Rightarrow> Inl f
              | Inr (ok2, disk2, g2) \<Rightarrow>
                  if \<not> ok2 then Inr (- 3, Some disk2, g2)
                  else case ReadRootDirectory disk2 g2 of
                    Inl f \<Rightarrow> Inl f
                  | Inr (ok3, disk3, g3) \<Rightarrow>
                      if \<not> ok3 then Inr (- 4, Some disk3, g3)
                      else case FindFile name g3 of
                        Inl f \<Rightarrow> Inl f
                      | Inr None \<Rightarrow> Inr (- 5, Some disk3, g3)
                      | Inr (Some i) \<Rightarrow> Inr (0, Some disk3, g3))"

section \<open>Layout tables and sample images\<close>

text \<open>The members of a packed \<open>BootSector\<close>, each read at its byte offset.\<close>

definition BootSector_at_offsets :: "bytes \<Rightarrow> BootSector" where
  "BootSector_at_offsets m =
     \<lparr> bootJumpInstruction = take 3 m,
       oemIdentifier = take 8 (drop 3 m),
       bytesPerSector = word_cat (m ! 12) (m ! 11),
       sectorsPerCluster = m ! 13,
       reservedSectors = word_cat (m ! 15) (m ! 14),
       fatCount = m ! 16,
       dirEntryCount = word_cat (m ! 18) (m ! 17),
       totalSectors = word_cat (m ! 20) (m ! 19),
       mediaDescriptorType = m ! 21,
       sectorsPerFat = word_cat (m ! 23) (m ! 22),
       sectorsPerTrack = word_cat (m ! 25) (m ! 24),
       heads = word_cat (m ! 27) (m ! 26),
       hiddenSectors = word_cat (word_cat (m ! 31) (m ! 30) :: uint16_t) (word_cat (m ! 29) (m ! 28) :: uint16_t),
       largeSectorCount = word_cat (word_cat (m ! 35) (m ! 34) :: uint16_t) (word_cat (m ! 33) (m ! 32) :: uint16_t),
       driveNumber = m ! 36,
       reserved_bs = m ! 37,
       signature = m ! 38,
       volumeID = word_cat (word_cat (m ! 42) (m ! 41) :: uint16_t) (word_cat (m ! 40) (m ! 39) :: uint16_t),
       volumeLabel = take 11 (drop 43 m),
       systemID = take 8 (drop 54 m) \<rparr>"

text \<open>A 1.44MB FAT12 floppy image: 2880 sectors of 512 bytes, two entries in the root.\<close>

definition bytes_of_string :: "string \<Rightarrow> bytes" where
  "bytes_of_string s = map of_char s"

definition floppy_boot :: bytes where
  "floppy_boot =
     [0xEB, 0x3C, 0x90] @ bytes_of_string ''MSWIN4.1''
     @ [0x00, 0x02, 0x01, 0x01, 0x00, 0x02, 0xE0, 0x00, 0x40, 0x0B, 0xF0,
        0x09, 0x00, 0x12, 0x00, 0x02, 0x00, 0, 0, 0, 0, 0, 0, 0, 0,
        0x00, 0x00, 0x29, 0x78, 0x56, 0x34, 0x12]
     @ bytes_of_string ''NO NAME    '' @ bytes_of_string ''FAT12   ''"

definition kernel_entry :: bytes where
  "kernel_entry =
     bytes_of_string ''KERNEL  BIN''
     @ [0x20, 0, 0, 0, 0, 0, 0, 0, 0, 0, 0, 0, 0, 0, 0, 0x02, 0x00, 0xD2, 0x04, 0x00, 0x00]"

definition file_entry :: bytes where
  "file_entry =
     bytes_of_string ''FILE    TXT''
     @ [0x20, 0, 0, 0, 0, 0, 0, 0, 0, 0, 0, 0, 0, 0, 0, 0x05, 0x00, 0x00, 0x10, 0x00, 0x00]"

definition floppy_fat :: bytes where
  "floppy_fat = [0xF0, 0xFF, 0xFF] @ replicate (9 * 512 - 3) 0"

definition floppy_root :: bytes where
  "floppy_root = kernel_entry @ file_entry @ replicate (222 * 32) 0"

definition floppy_image :: bytes where
  "floppy_image =
     floppy_boot @ replicate (512 - 62) 0 @ floppy_fat @ floppy_fat @ floppy_root
     @ replicate ((2880 - 33) * 512) 0"

definition floppy_disk :: FILE where
  "floppy_disk = \<lparr> file_data = floppy_image, file_pos = 0, file_seekable = True \<rparr>"

definition floppy_BootSector :: BootSector where
  "floppy_BootSector =
     \<lparr> bootJumpInstruction = [0xEB, 0x3C, 0x90],
       oemIdentifier = bytes_of_string ''MSWIN4.1'',
       bytesPerSector = 512, sectorsPerCluster = 1, reservedSectors = 1, fatCount = 2,
       dirEntryCount = 224, totalSectors = 2880, mediaDescriptorType = 0xF0,
       sectorsPerFat = 9, sectorsPerTrack = 18, heads = 2, hiddenSectors = 0,
       largeSectorCount = 0, driveNumber = 0, reserved_bs = 0, signature = 0x29,
       volumeID = 0x12345678, volumeLabel = bytes_of_string ''NO NAME    '',
       systemID = bytes_of_string ''FAT12   '' \<rparr>"

text \<open>The globals after the boot sector of the floppy is decoded, and after both loads.\<close>

definition floppy_decoded :: globals where
  "floppy_decoded = initial_globals\<lparr>g_BootSector := floppy_BootSector\<rparr>"

definition floppy_loaded :: globals where
  "floppy_loaded =
     \<lparr> g_BootSector = floppy_BootSector, g_Fat = Some floppy_fat,
       g_RootDirectory = Some floppy_root \<rparr>"

text \<open>A decoded boot sector whose \<open>bytesPerSector\<close> is 0.\<close>

definition zero_sector_size_globals :: globals where
  "zero_sector_size_globals =
     initial_globals\<lparr>g_BootSector := floppy_BootSector\<lparr>bytesPerSector := 0\<rparr>\<rparr>"

text \<open>The floppy geometry with a root directory of zero bytes.\<close>

definition zeroed_globals :: globals where
  "zeroed_globals =
     \<lparr> g_BootSector = floppy_BootSector, g_Fat = Some floppy_fat,
       g_RootDirectory = Some (replicate 7168 0) \<rparr>"

text \<open>
  The floppy image with 256 reserved sectors instead of 1: the tables start at sector
  256 and the root directory at sector 274. \<open>wide_truncated_disk\<close> ends with the
  reserved region.
\<close>

definition wide_boot :: bytes where
  "wide_boot = floppy_boot[14 := 0x00, 15 := 0x01]"

definition wide_BootSector :: BootSector where
  "wide_BootSector = floppy_BootSector\<lparr>reservedSectors := 256\<rparr>"

definition wide_image :: bytes where
  "wide_image =
     wide_boot @ replicate (256 * 512 - 62) 0 @ floppy_fat @ floppy_fat @ floppy_root
     @ replicate ((2880 - 256 - 32) * 512) 0"

definition wide_disk :: FILE where
  "wide_disk = \<lparr> file_data = wide_image, file_pos = 0, file_seekable = True \<rparr>"

definition wide_truncated_disk :: FILE where
  "wide_truncated_disk =
     \<lparr> file_data = take (256 * 512) wide_image, file_pos = 0, file_seekable = True \<rparr>"

definition wide_decoded :: globals where
  "wide_decoded = initial_globals\<lparr>g_BootSector := wide_BootSector\<rparr>"

section \<open>Properties\<close>

subsection \<open>Structure sizes and decoding\<close>

lemma sizeof_BootSector_62: "sizeof_BootSector = 62"
  by (simp add: sizeof_BootSector_def)

lemma sizeof_DirectoryEntry_32: "sizeof_DirectoryEntry = 32"
  by (simp add: sizeof_DirectoryEntry_def)

lemma take2_drop: "n + 2 \<le> length m \<Longrightarrow> take 2 (drop n m) = [m ! n, m ! (n + 1)]"
  by (simp add: take_Suc_conv_app_nth numeral_2_eq_2)

lemma take4_drop: "n + 4 \<le> length m \<Longrightarrow> take 4 (drop n m) = [m ! n, m ! (n + 1), m ! (n + 2), m ! (n + 3)]"
  by (simp add: take_Suc_conv_app_nth numeral_Bit0 numeral_3_eq_3 add.commute)

lemma get_u16_drop:
  "n + 2 \<le> length m \<Longrightarrow> get_u16 (drop n m) = (word_cat (m ! (n + 1)) (m ! n), drop (n + 2) m)"
  by (simp add: get_u16_def take2_drop add.commute)

lemma get_u32_drop:
  "n + 4 \<le> length m \<Longrightarrow> get_u32 (drop n m) =
     (word_cat (word_cat (m ! (n + 3)) (m ! (n + 2)) :: uint16_t) (word_cat (m ! (n + 1)) (m ! n) :: uint16_t),
      drop (n + 4) m)"
  by (simp add: get_u32_def take4_drop add.commute)

lemma get_u8_drop: "n < length m \<Longrightarrow> get_u8 (drop n m) = (m ! n, drop (n + 1) m)"
  by (simp add: get_u8_def Cons_nth_drop_Suc [symmetric])

lemma get_array_drop: "get_array k (drop n m) = (take k (drop n m), drop (n + k) m)"
  by (simp add: get_array_def add.commute)

lemma BootSector_of_bytes_offsets:
  assumes "62 \<le> length m"
  shows "BootSector_of_bytes m = BootSector_at_offsets m"
proof -
  have g0: "get_array 3 m = (take 3 m, drop 3 m)" by (simp add: get_array_def)
  show ?thesis
    unfolding BootSector_of_bytes_def BootSector_at_offsets_def g0
    using assms
    by (simp add: get_array_drop get_u16_drop get_u32_drop get_u8_drop)
qed

lemma length_array_bytes: "length (array_bytes n a) = n"
  by (simp add: array_bytes_def)

lemma length_bytes_of_BootSector: "length (bytes_of_BootSector b) = 62"
  by (simp add: bytes_of_BootSector_def length_array_bytes bytes_of_u16_def bytes_of_u32_def)

lemma fread_whole:
  assumes "0 < sz" "0 < nmemb" "sz * nmemb \<le> length (drop (file_pos stream) (file_data stream))"
    "length ptr = sz * nmemb"
  shows "fread ptr sz nmemb stream =
     Inr (nmemb, take (sz * nmemb) (drop (file_pos stream) (file_data stream)),
          stream\<lparr>file_pos := file_pos stream + sz * nmemb\<rparr>)"
  using assms by (simp add: fread_def Let_def min_absorb2)

lemma fread_short:
  assumes "0 < sz" "length (drop (file_pos stream) (file_data stream)) < sz * nmemb"
    and "length (drop (file_pos stream) (file_data stream)) \<le> length ptr"
  shows "\<exists>n obj stream'. fread ptr sz nmemb stream = Inr (n, obj, stream') \<and> n < nmemb"
proof -
  have "0 < nmemb" using assms by (cases nmemb) auto
  have "length (drop (file_pos stream) (file_data stream)) div sz < nmemb"
    using assms by (simp add: div_less_iff_less_mult mult.commute)
  then show ?thesis using assms \<open>0 < nmemb\<close>
    by (simp add: fread_def Let_def min_absorb1)
qed

subsection \<open>The sample floppy image\<close>

lemma floppy_boot_bytes: "floppy_boot = 
    [0xEB, 0x3C, 0x90, 0x4D, 0x53, 0x57, 0x49, 0x4E, 0x34, 0x2E, 0x31,
     0x00, 0x02, 0x01, 0x01, 0x00, 0x02, 0xE0, 0x00, 0x40, 0x0B, 0xF0,
        0x09, 0x00, 0x12, 0x00, 0x02, 0x00, 0, 0, 0, 0, 0, 0, 0, 0,
        0x00, 0x00, 0x29, 0x78, 0x56, 0x34, 0x12,
     0x4E, 0x4F, 0x20, 0x4E, 0x41, 0x4D, 0x45, 0x20, 0x20, 0x20, 0x20,
     0x46, 0x41, 0x54, 0x31, 0x32, 0x20, 0x20, 0x20]"
  by (simp add: floppy_boot_def bytes_of_string_def)

lemma length_floppy_boot: "length floppy_boot = 62"
  by (simp add: floppy_boot_bytes)

lemma length_kernel_entry: "length kernel_entry = 32"
  by (simp add: kernel_entry_def bytes_of_string_def)

lemma length_file_entry: "length file_entry = 32"
  by (simp add: file_entry_def bytes_of_string_def)

lemma length_floppy_fat: "length floppy_fat = 4608"
  by (simp add: floppy_fat_def)

lemma length_floppy_root: "length floppy_root = 7168"
  by (simp add: floppy_root_def length_kernel_entry length_file_entry)

lemma length_floppy_image: "length floppy_image = 1474560"
  by (simp add: floppy_image_def length_floppy_boot length_floppy_fat length_floppy_root)

lemma floppy_image_boot: "BootSector_at_offsets floppy_image = floppy_BootSector"
proof -
  have "BootSector_at_offsets (floppy_boot @ rest) = floppy_BootSector" for rest
    by (simp add: BootSector_at_offsets_def floppy_BootSector_def floppy_boot_bytes
        bytes_of_string_def nth_append word_cat_eq)
  then show ?thesis by (simp add: floppy_image_def)
qed

lemma floppy_image_root: "take 7168 (drop 9728 floppy_image) = floppy_root"
  by (simp add: floppy_image_def length_floppy_boot length_floppy_fat length_floppy_root)

lemma floppy_image_fat: "take 4608 (drop 512 floppy_image) = floppy_fat"
  by (simp add: floppy_image_def length_floppy_boot length_floppy_fat length_floppy_root)

lemma floppy_decoded_simps:
  "g_BootSector floppy_decoded = floppy_BootSector"
  "g_Fat floppy_decoded = None"
  "g_RootDirectory floppy_decoded = None"
  by (simp_all add: floppy_decoded_def initial_globals_def)

lemma floppy_BootSector_simps:
  "bytesPerSector floppy_BootSector = 512"
  "reservedSectors floppy_BootSector = 1"
  "fatCount floppy_BootSector = 2"
  "sectorsPerFat floppy_BootSector = 9"
  "dirEntryCount floppy_BootSector = 224"
  by (simp_all add: floppy_BootSector_def)

lemma floppy_disk_simps:
  "file_data floppy_disk = floppy_image"
  "file_pos floppy_disk = 0"
  "file_seekable floppy_disk"
  by (simp_all add: floppy_disk_def)

lemma floppy_loaded_simps:
  "g_BootSector floppy_loaded = floppy_BootSector"
  "g_Fat floppy_loaded = Some floppy_fat"
  "g_RootDirectory floppy_loaded = Some floppy_root"
  by (simp_all add: floppy_loaded_def)

lemma zeroed_globals_simps:
  "g_BootSector zeroed_globals = floppy_BootSector"
  "g_RootDirectory zeroed_globals = Some (replicate 7168 0)"
  by (simp_all add: zeroed_globals_def)

lemma replicate_11: "replicate 11 x = [x, x, x, x, x, x, x, x, x, x, x]"
  by (simp add: numeral_eq_Suc)

subsection \<open>Decoding the boot sector\<close>

lemma ReadBootSector_ok:
  assumes "62 \<le> length (drop (file_pos disk) (file_data disk))"
  shows "ReadBootSector disk g =
        Inr (True, disk\<lparr>file_pos := file_pos disk + 62\<rparr>,
             g\<lparr>g_BootSector := BootSector_of_bytes (drop (file_pos disk) (file_data disk))\<rparr>)"
proof -
  let ?img = "drop (file_pos disk) (file_data disk)"
  have "fread (bytes_of_BootSector (g_BootSector g)) 62 1 disk =
          Inr (1, take 62 ?img, disk\<lparr>file_pos := file_pos disk + 62\<rparr>)"
    using fread_whole [of 62 1 disk "bytes_of_BootSector (g_BootSector g)"] assms
    by (simp add: length_bytes_of_BootSector)
  moreover have "BootSector_of_bytes (take 62 ?img) = BootSector_of_bytes ?img"
    using assms by (simp add: BootSector_of_bytes_offsets BootSector_at_offsets_def drop_take)
  ultimately show ?thesis
    by (simp add: ReadBootSector_def sizeof_BootSector_62)
qed

lemma ReadBootSector_short:
  assumes "length (drop (file_pos disk) (file_data disk)) < 62"
  shows "\<exists>disk' g'. ReadBootSector disk g = Inr (False, disk', g')"
proof -
  obtain n obj disk' where
    "fread (bytes_of_BootSector (g_BootSector g)) 62 1 disk = Inr (n, obj, disk')" "n < 1"
    using fread_short [of 62 disk 1 "bytes_of_BootSector (g_BootSector g)"] assms
    by (auto simp: length_bytes_of_BootSector)
  then show ?thesis
    by (simp add: ReadBootSector_def sizeof_BootSector_62)
qed

text \<open>
  Claim C8. \<open>ReadBootSector\<close> reads the 62 bytes of the packed structure at the stream
  position (the start of the image when \<open>main\<close> calls it). It returns true exactly when
  that many bytes are there and false exactly when they are not; every member is then
  the value at its fixed offset, and no byte value is rejected.
\<close>

theorem ReadBootSector_decode:
  "sizeof_BootSector = 62 \<and>
   ((\<exists>disk' g'. ReadBootSector disk g = Inr (True, disk', g')) \<longleftrightarrow>
      62 \<le> length (drop (file_pos disk) (file_data disk))) \<and>
   ((\<exists>disk' g'. ReadBootSector disk g = Inr (False, disk', g')) \<longleftrightarrow>
      length (drop (file_pos disk) (file_data disk)) < 62) \<and>
   (62 \<le> length (drop (file_pos disk) (file_data disk)) \<longrightarrow>
      ReadBootSector disk g =
        Inr (True, disk\<lparr>file_pos := file_pos disk + 62\<rparr>,
             g\<lparr>g_BootSector := BootSector_at_offsets (drop (file_pos disk) (file_data disk))\<rparr>))"
proof (cases "62 \<le> length (drop (file_pos disk) (file_data disk))")
  case True
  then show ?thesis
    using ReadBootSector_ok [of disk g]
    by (simp add: sizeof_BootSector_62 BootSector_of_bytes_offsets)
next
  case False
  then have "length (drop (file_pos disk) (file_data disk)) < 62" by simp
  from ReadBootSector_short [OF this, of g] False show ?thesis
    by (auto simp: sizeof_BootSector_62)
qed

theorem ReadBootSector_decode_witness:
  "62 \<le> length (drop (file_pos floppy_disk) (file_data floppy_disk)) \<and>
   ReadBootSector floppy_disk initial_globals =
     Inr (True, floppy_disk\<lparr>file_pos := 62\<rparr>,
          initial_globals\<lparr>g_BootSector := floppy_BootSector\<rparr>) \<and>
   bytesPerSector floppy_BootSector = 512 \<and> dirEntryCount floppy_BootSector = 224"
  using ReadBootSector_decode [of floppy_disk initial_globals]
  by (simp add: floppy_disk_def length_floppy_image floppy_image_boot floppy_BootSector_def)

subsection \<open>Conversions between the integer types\<close>

lemma unat_lt16: "unat (w :: uint16_t) < 65536"
  using unsigned_less [of w, where 'a = nat] by simp

lemma unat_lt8: "unat (w :: uint8_t) < 256"
  using unsigned_less [of w, where 'a = nat] by simp

lemma unat_ucast_16_32: "unat (ucast (w :: uint16_t) :: uint32_t) = unat w"
proof -
  have "unat w < 2 ^ 32" using unat_lt16 [of w] by simp
  then show ?thesis by (simp add: unsigned_ucast_eq take_bit_nat_eq_self)
qed

lemma unat_ucast_16_8: "unat (ucast (w :: uint16_t) :: uint8_t) = unat w mod 256"
  by (simp add: unsigned_ucast_eq take_bit_eq_mod)

lemma unat_ucast_32_8: "unat (ucast (w :: uint32_t) :: uint8_t) = unat w mod 256"
  by (simp add: unsigned_ucast_eq take_bit_eq_mod)

lemma unat_of_nat_32: "k < 4294967296 \<Longrightarrow> unat (of_nat k :: uint32_t) = k"
  by (simp add: unat_of_nat)

lemma nat_uint_mult: "nat (uint (a :: uint8_t) * uint (b :: uint16_t)) = unat a * unat b"
  by (simp add: nat_mult_distrib)

subsection \<open>Reading sectors\<close>

lemma ReadDiskSectors_unseekable:
  "\<not> file_seekable disk \<Longrightarrow> ReadDiskSectors disk lba cnt buf g = Inr (False, disk, buf)"
  by (simp add: ReadDiskSectors_def fseek_def)

lemma ReadDiskSectors_seekable:
  assumes "file_seekable disk"
  shows "ReadDiskSectors disk lba cnt buf g =
     (case fread buf (unat (bytesPerSector (g_BootSector g))) (unat cnt)
             (disk\<lparr>file_pos := unat lba * unat (bytesPerSector (g_BootSector g))\<rparr>) of
        Inl f \<Rightarrow> Inl f
      | Inr (n, buf', disk') \<Rightarrow> Inr (n = unat cnt, disk', buf'))"
  using assms by (simp add: ReadDiskSectors_def fseek_def nat_uint_mult)

lemma ReadDiskSectors_result:
  assumes "unat cnt * unat (bytesPerSector (g_BootSector g)) \<le> length buf"
  shows "ReadDiskSectors disk lba cnt buf g =
     Inr (if \<not> file_seekable disk then (False, disk, buf)
          else if bytesPerSector (g_BootSector g) = 0 \<or> cnt = 0
            then (cnt = 0, disk\<lparr>file_pos := unat lba * unat (bytesPerSector (g_BootSector g))\<rparr>, buf)
          else let got = take (unat cnt * unat (bytesPerSector (g_BootSector g)))
                           (drop (unat lba * unat (bytesPerSector (g_BootSector g))) (file_data disk))
               in (length got = unat cnt * unat (bytesPerSector (g_BootSector g)),
                   disk\<lparr>file_pos := unat lba * unat (bytesPerSector (g_BootSector g)) + length got\<rparr>,
                   got @ drop (length got) buf))"
proof -
  let ?bps = "unat (bytesPerSector (g_BootSector g))"
  let ?off = "unat lba * ?bps"
  have items: "(length got div ?bps = unat cnt) = (length got = unat cnt * ?bps)"
    if "0 < ?bps" "length got \<le> unat cnt * ?bps" for got :: bytes
  proof
    assume "length got div ?bps = unat cnt"
    then have "unat cnt * ?bps \<le> length got"
      by (metis div_times_less_eq_dividend)
    with that show "length got = unat cnt * ?bps" by simp
  next
    assume "length got = unat cnt * ?bps"
    with that show "length got div ?bps = unat cnt" by simp
  qed
  show ?thesis
  proof (cases "file_seekable disk")
    case False
    then show ?thesis by (simp add: ReadDiskSectors_unseekable)
  next
    case True
    show ?thesis
    proof (cases "bytesPerSector (g_BootSector g) = 0 \<or> cnt = 0")
      case z: True
      then have "?bps = 0 \<or> unat cnt = 0" by (auto simp: unat_eq_0)
      with True z show ?thesis
        by (auto simp: ReadDiskSectors_seekable fread_def unat_eq_0)
    next
      case nz: False
      then have pos: "0 < ?bps" "0 < unat cnt" by (simp_all add: unat_gt_0)
      let ?got = "take (unat cnt * ?bps) (drop ?off (file_data disk))"
      have le: "length ?got \<le> unat cnt * ?bps" by simp
      then have fits: "\<not> length buf < length ?got" using assms by linarith
      have fits': "\<not> length buf < min (length (file_data disk) - ?off) (?bps * unat cnt)"
        using fits by (simp add: mult.commute min.commute)
      from items [OF pos(1) le] True nz pos fits' show ?thesis
        by (simp add: ReadDiskSectors_seekable fread_def Let_def mult.commute)
    qed
  qed
qed

lemma ReadDiskSectors_overrun:
  assumes "file_seekable disk" "bytesPerSector (g_BootSector g) \<noteq> 0" "cnt \<noteq> 0"
    and "length buf < length (take (unat cnt * unat (bytesPerSector (g_BootSector g)))
            (drop (unat lba * unat (bytesPerSector (g_BootSector g))) (file_data disk)))"
  shows "ReadDiskSectors disk lba cnt buf g = Inl OutOfBounds"
proof -
  have "0 < unat (bytesPerSector (g_BootSector g))" "0 < unat cnt"
    using assms(2,3) by (simp_all add: unat_gt_0)
  with assms(1,4) show ?thesis
    by (simp add: ReadDiskSectors_seekable fread_def Let_def mult.commute min.commute)
qed

lemma ReadDiskSectors_ok:
  assumes "file_seekable disk" "bytesPerSector (g_BootSector g) \<noteq> 0"
    and "unat lba * unat (bytesPerSector (g_BootSector g))
           + unat cnt * unat (bytesPerSector (g_BootSector g)) \<le> length (file_data disk)"
    and "unat cnt * unat (bytesPerSector (g_BootSector g)) \<le> length buf"
  shows "ReadDiskSectors disk lba cnt buf g =
     Inr (True,
          disk\<lparr>file_pos := unat lba * unat (bytesPerSector (g_BootSector g))
                     + unat cnt * unat (bytesPerSector (g_BootSector g))\<rparr>,
          take (unat cnt * unat (bytesPerSector (g_BootSector g)))
            (drop (unat lba * unat (bytesPerSector (g_BootSector g))) (file_data disk))
          @ drop (unat cnt * unat (bytesPerSector (g_BootSector g))) buf)"
proof (cases "cnt = 0")
  case True
  with assms show ?thesis by (simp add: ReadDiskSectors_result)
next
  case False
  with assms show ?thesis by (simp add: ReadDiskSectors_result Let_def min_absorb2)
qed

lemma ReadDiskSectors_length:
  assumes "unat cnt * unat (bytesPerSector (g_BootSector g)) \<le> length buf"
  shows "\<exists>ok disk' buf'. ReadDiskSectors disk lba cnt buf g = Inr (ok, disk', buf') \<and>
           length buf' = length buf"
proof -
  let ?got = "take (unat cnt * unat (bytesPerSector (g_BootSector g)))
                (drop (unat lba * unat (bytesPerSector (g_BootSector g))) (file_data disk))"
  have "length ?got \<le> length buf" using assms by simp
  then have "length (?got @ drop (length ?got) buf) = length buf" by simp
  then show ?thesis
    unfolding ReadDiskSectors_result [OF assms] Let_def
    by (cases "file_seekable disk"; cases "bytesPerSector (g_BootSector g) = 0 \<or> cnt = 0")
       (auto simp del: length_append length_drop length_take)
qed

text \<open>
  Claim C4, amended. Let a caller pass the sector number \<open>lba\<close>, a positive \<open>count\<close>
  and a destination of at least \<open>count * bytesPerSector\<close> bytes, and let \<open>lba\<close> arrive
  unchanged. Then \<open>ReadDiskSectors\<close> seeks to offset \<open>lba * bytesPerSector\<close>, and it
  returns true exactly when the stream can be positioned, the sector size is not 0 and
  \<open>count * bytesPerSector\<close> bytes are there from that offset; it then has stored exactly
  those bytes at the front of the destination and left the stream behind them, and it
  returns false in every other case. Nothing is said of a call whose sector number the
  conversion to the 8-bit parameter alters, as it does 274 to 18.
\<close>

theorem ReadDiskSectors_contract:
  assumes "unat (of_nat lba :: uint8_t) = lba" and "cnt \<noteq> 0"
    and "unat cnt * unat (bytesPerSector (g_BootSector g)) \<le> length buf"
  shows "(ReadDiskSectors disk (of_nat lba) cnt buf g =
            Inr (True,
                 disk\<lparr>file_pos := lba * unat (bytesPerSector (g_BootSector g))
                            + unat cnt * unat (bytesPerSector (g_BootSector g))\<rparr>,
                 take (unat cnt * unat (bytesPerSector (g_BootSector g)))
                   (drop (lba * unat (bytesPerSector (g_BootSector g))) (file_data disk))
                 @ drop (unat cnt * unat (bytesPerSector (g_BootSector g))) buf)
          \<longleftrightarrow>
            file_seekable disk \<and> bytesPerSector (g_BootSector g) \<noteq> 0 \<and>
            unat cnt * unat (bytesPerSector (g_BootSector g))
              \<le> length (drop (lba * unat (bytesPerSector (g_BootSector g))) (file_data disk))) \<and>
         ((\<exists>disk' buf'. ReadDiskSectors disk (of_nat lba) cnt buf g = Inr (False, disk', buf'))
          \<longleftrightarrow>
            \<not> (file_seekable disk \<and> bytesPerSector (g_BootSector g) \<noteq> 0 \<and>
               unat cnt * unat (bytesPerSector (g_BootSector g))
                 \<le> length (drop (lba * unat (bytesPerSector (g_BootSector g))) (file_data disk)))) \<and>
         (file_seekable disk \<and> bytesPerSector (g_BootSector g) \<noteq> 0 \<longrightarrow>
            (\<exists>ok disk' buf'. ReadDiskSectors disk (of_nat lba) cnt buf g = Inr (ok, disk', buf') \<and>
               file_pos disk' = lba * unat (bytesPerSector (g_BootSector g))
                 + min (unat cnt * unat (bytesPerSector (g_BootSector g)))
                       (length (drop (lba * unat (bytesPerSector (g_BootSector g))) (file_data disk)))))"
proof -
  let ?bps = "unat (bytesPerSector (g_BootSector g))"
  let ?n = "unat cnt * ?bps"
  let ?off = "lba * ?bps"
  let ?cond = "file_seekable disk \<and> bytesPerSector (g_BootSector g) \<noteq> 0 \<and>
            ?n \<le> length (drop ?off (file_data disk))"
  note lba = assms(1)
  note res = ReadDiskSectors_result [OF assms(3), of disk "of_nat lba", unfolded lba]
  have success: "ReadDiskSectors disk (of_nat lba) cnt buf g =
      Inr (True, disk\<lparr>file_pos := ?off + ?n\<rparr>, take ?n (drop ?off (file_data disk)) @ drop ?n buf)"
    if c: ?cond
  proof -
    have "0 < unat cnt" "0 < ?bps"
      using assms(2) c by (simp_all add: unat_gt_0)
    then have "0 < ?n" by (rule mult_pos_pos)
    moreover have "?n \<le> length (file_data disk) - ?off" using c by simp
    ultimately have "?off + ?n \<le> length (file_data disk)" by linarith
    with c assms(3) show ?thesis
      using ReadDiskSectors_ok [of disk g "of_nat lba" cnt buf] by (simp add: lba)
  qed
  have failure: "\<exists>disk' buf'. ReadDiskSectors disk (of_nat lba) cnt buf g = Inr (False, disk', buf')"
    if c: "\<not> ?cond"
    using c assms(2) by (auto simp: res Let_def)
  have pos: "\<exists>ok disk' buf'. ReadDiskSectors disk (of_nat lba) cnt buf g = Inr (ok, disk', buf') \<and>
               file_pos disk' = ?off + min ?n (length (drop ?off (file_data disk)))"
    if "file_seekable disk" "bytesPerSector (g_BootSector g) \<noteq> 0"
    using that assms(2) by (simp add: res Let_def min.commute)
  from success failure pos show ?thesis by (intro conjI iffI impI) (auto simp: )
qed

theorem ReadDiskSectors_contract_witness:
  "unat (of_nat 1 :: uint8_t) = 1 \<and> (9 :: uint32_t) \<noteq> 0 \<and>
   unat (9 :: uint32_t) * unat (bytesPerSector (g_BootSector floppy_decoded)) \<le> length (malloc 4608) \<and>
   ReadDiskSectors floppy_disk (of_nat 1) 9 (malloc 4608) floppy_decoded =
     Inr (True, floppy_disk\<lparr>file_pos := 5120\<rparr>, floppy_fat)"
  using ReadDiskSectors_contract [of 1 9 floppy_decoded "malloc 4608" floppy_disk]
  by (simp add: floppy_decoded_simps floppy_BootSector_simps floppy_disk_simps
      length_floppy_image floppy_image_fat malloc_def)

text \<open>
  The claim as stated fails for a sector size of 0, which \<open>ReadBootSector\<close> accepts:
  the stream is positioned, no byte is missing from the \<open>1 * 0\<close> requested, and the
  call still returns false, because \<open>fread\<close> with an element size of 0 returns 0.
\<close>

theorem ReadDiskSectors_zero_sector_size_counterexample:
  "file_seekable floppy_disk \<and>
   unat (1 :: uint32_t) * unat (bytesPerSector (g_BootSector zero_sector_size_globals))
     \<le> length (drop (unat (0 :: uint8_t)
                     * unat (bytesPerSector (g_BootSector zero_sector_size_globals)))
               (file_data floppy_disk)) \<and>
   ReadDiskSectors floppy_disk 0 1 (malloc 0) zero_sector_size_globals =
     Inr (False, floppy_disk\<lparr>file_pos := 0\<rparr>, malloc 0)"
  by (simp add: ReadDiskSectors_def fseek_def fread_def zero_sector_size_globals_def
      floppy_disk_simps)

subsection \<open>Searching the root directory\<close>

lemma de_name_of_bytes: "de_name (DirectoryEntry_of_bytes m) = take 11 m"
  by (simp add: DirectoryEntry_of_bytes_def get_array_def split_beta Let_def)

lemma de_name_RootDirectory_at:
  "de_name (RootDirectory_at buf i) = take 11 (drop (32 * i) buf)"
  by (simp add: RootDirectory_at_def de_name_of_bytes sizeof_DirectoryEntry_32)

lemma length_de_name:
  "32 * i + 11 \<le> length buf \<Longrightarrow> length (de_name (RootDirectory_at buf i)) = 11"
  by (simp add: de_name_RootDirectory_at)

lemma memcmp_eq_name:
  assumes "length name = 11" "32 * i + 11 \<le> length buf"
  shows "memcmp_eq name (de_name (RootDirectory_at buf i)) 11 \<longleftrightarrow>
         de_name (RootDirectory_at buf i) = name"
  using assms length_de_name [of i buf] by (auto simp: memcmp_eq_def)

lemma FindFile_from_step:
  assumes "g_RootDirectory g = Some buf"
    and "32 * unat (dirEntryCount (g_BootSector g)) \<le> length buf"
    and "length name = 11"
    and "k < unat (dirEntryCount (g_BootSector g))"
  shows "FindFile_from name g (of_nat k) =
     (if de_name (RootDirectory_at buf k) = name then Inr (Some k)
      else FindFile_from name g (of_nat (Suc k)))"
proof -
  have k32: "k < 4294967296" using assms(4) unat_lt16 [of "dirEntryCount (g_BootSector g)"] by simp
  then have uk: "unat (of_nat k :: uint32_t) = k" by (rule unat_of_nat_32)
  have lt: "(of_nat k :: uint32_t) < ucast (dirEntryCount (g_BootSector g))"
    using assms(4) by (simp add: word_less_nat_alt uk unat_ucast_16_32)
  have inb: "32 * k + 11 \<le> length buf" using assms(2,4) by simp
  show ?thesis
    using lt inb assms(1,3)
    by (subst FindFile_from.simps)
       (simp add: uk sizeof_DirectoryEntry_32 memcmp_eq_name add.commute)
qed

lemma FindFile_from_end:
  "FindFile_from name g (ucast (dirEntryCount (g_BootSector g))) = Inr None"
  by (subst FindFile_from.simps) simp

lemma FindFile_from_none:
  assumes "g_RootDirectory g = Some buf"
    and "32 * unat (dirEntryCount (g_BootSector g)) \<le> length buf"
    and "length name = 11"
    and "k \<le> unat (dirEntryCount (g_BootSector g))"
    and "\<forall>j. k \<le> j \<and> j < unat (dirEntryCount (g_BootSector g)) \<longrightarrow>
             de_name (RootDirectory_at buf j) \<noteq> name"
  shows "FindFile_from name g (of_nat k) = Inr None"
  using assms(4,5)
proof (induction "unat (dirEntryCount (g_BootSector g)) - k" arbitrary: k)
  case 0
  then have "k = unat (dirEntryCount (g_BootSector g))" by simp
  then show ?case by (simp add: FindFile_from_end)
next
  case (Suc d)
  then have lt: "k < unat (dirEntryCount (g_BootSector g))" by simp
  with Suc.prems have ne: "de_name (RootDirectory_at buf k) \<noteq> name" by simp
  have "FindFile_from name g (of_nat (Suc k)) = Inr None"
    using Suc.hyps(2) lt Suc.prems by (intro Suc.hyps(1)) auto
  with ne show ?case
    using FindFile_from_step [OF assms(1-3) lt] by simp
qed

lemma FindFile_from_first:
  assumes "g_RootDirectory g = Some buf"
    and "32 * unat (dirEntryCount (g_BootSector g)) \<le> length buf"
    and "length name = 11"
    and "i < unat (dirEntryCount (g_BootSector g))"
    and "de_name (RootDirectory_at buf i) = name"
    and "k \<le> i"
    and "\<forall>j. k \<le> j \<and> j < i \<longrightarrow> de_name (RootDirectory_at buf j) \<noteq> name"
  shows "FindFile_from name g (of_nat k) = Inr (Some i)"
  using assms(6,7)
proof (induction "i - k" arbitrary: k)
  case 0
  then have "k = i" by simp
  then show ?case
    using FindFile_from_step [OF assms(1-3) assms(4)] assms(5) by simp
next
  case (Suc d)
  then have lt: "k < i" by simp
  with Suc.prems have ne: "de_name (RootDirectory_at buf k) \<noteq> name" by simp
  have ki: "k < unat (dirEntryCount (g_BootSector g))" using lt assms(4) by simp
  have "FindFile_from name g (of_nat (Suc k)) = Inr (Some i)"
    using Suc.hyps(2) lt Suc.prems by (intro Suc.hyps(1)) auto
  with ne show ?case
    using FindFile_from_step [OF assms(1-3) ki] by simp
qed

lemma FindFile_cases:
  assumes "g_RootDirectory g = Some buf"
    and "32 * unat (dirEntryCount (g_BootSector g)) \<le> length buf"
    and "length name = 11"
  shows "(\<exists>i < unat (dirEntryCount (g_BootSector g)).
            de_name (RootDirectory_at buf i) = name \<and>
            (\<forall>j<i. de_name (RootDirectory_at buf j) \<noteq> name) \<and>
            FindFile name g = Inr (Some i))
         \<or> ((\<forall>j < unat (dirEntryCount (g_BootSector g)). de_name (RootDirectory_at buf j) \<noteq> name)
             \<and> FindFile name g = Inr None)"
proof (cases "\<exists>i < unat (dirEntryCount (g_BootSector g)). de_name (RootDirectory_at buf i) = name")
  case False
  then have "FindFile_from name g (of_nat 0) = Inr None"
    by (intro FindFile_from_none [OF assms]) auto
  with False show ?thesis by (auto simp: FindFile_def)
next
  case True
  define P where "P i \<longleftrightarrow> i < unat (dirEntryCount (g_BootSector g)) \<and>
      de_name (RootDirectory_at buf i) = name" for i
  from True have ex: "\<exists>i. P i" by (auto simp: P_def)
  define m where "m = (LEAST i. P i)"
  have Pm: "P m" unfolding m_def using ex by (auto intro: LeastI)
  have least: "\<not> P j" if "j < m" for j
    using that not_less_Least unfolding m_def by blast
  have before: "\<forall>j<m. de_name (RootDirectory_at buf j) \<noteq> name"
  proof (intro allI impI)
    fix j assume "j < m"
    with least [of j] Pm show "de_name (RootDirectory_at buf j) \<noteq> name"
      by (auto simp: P_def)
  qed
  have "FindFile_from name g (of_nat 0) = Inr (Some m)"
    using Pm before by (intro FindFile_from_first [OF assms]) (auto simp: P_def)
  with Pm before show ?thesis by (auto simp: FindFile_def P_def)
qed

text \<open>
  Claim C3. On a loaded root directory (the buffer holds \<open>dirEntryCount\<close> records)
  and an 11-byte query, \<open>FindFile\<close> returns index \<open>i\<close> exactly when \<open>i\<close> is the
  smallest index below \<open>dirEntryCount\<close> whose name member equals the query, and returns
  \<open>NULL\<close> exactly when no index below \<open>dirEntryCount\<close> has that name. Nothing but
  the 11 name bytes decides: a first byte 0x00 does not end the scan and a first byte
  0xE5 does not hide an entry.
\<close>

theorem FindFile_first_match:
  assumes "g_RootDirectory g = Some buf"
    and "sizeof_DirectoryEntry * unat (dirEntryCount (g_BootSector g)) \<le> length buf"
    and "length name = 11"
  shows "(FindFile name g = Inr (Some i) \<longleftrightarrow>
            i < unat (dirEntryCount (g_BootSector g)) \<and>
            de_name (RootDirectory_at buf i) = name \<and>
            (\<forall>j<i. de_name (RootDirectory_at buf j) \<noteq> name)) \<and>
         (FindFile name g = Inr None \<longleftrightarrow>
            (\<forall>j < unat (dirEntryCount (g_BootSector g)).
                de_name (RootDirectory_at buf j) \<noteq> name))"
proof -
  have b: "32 * unat (dirEntryCount (g_BootSector g)) \<le> length buf"
    using assms(2) by (simp add: sizeof_DirectoryEntry_32)
  from FindFile_cases [OF assms(1) b assms(3)] show ?thesis
  proof (elim disjE exE conjE)
    fix m
    assume m: "m < unat (dirEntryCount (g_BootSector g))"
      "de_name (RootDirectory_at buf m) = name"
      "\<forall>j<m. de_name (RootDirectory_at buf j) \<noteq> name"
      "FindFile name g = Inr (Some m)"
    have "i = m" if i: "de_name (RootDirectory_at buf i) = name"
      "\<forall>j<i. de_name (RootDirectory_at buf j) \<noteq> name"
    proof (cases i m rule: linorder_cases)
      case less
      with m(3) i(1) show ?thesis by blast
    next
      case equal
      then show ?thesis .
    next
      case greater
      with i(2) m(2) show ?thesis by blast
    qed
    with m show ?thesis by auto
  next
    assume "\<forall>j < unat (dirEntryCount (g_BootSector g)). de_name (RootDirectory_at buf j) \<noteq> name"
      "FindFile name g = Inr None"
    then show ?thesis by auto
  qed
qed

lemma floppy_root_names:
  "de_name (RootDirectory_at floppy_root 0) = bytes_of_string ''KERNEL  BIN''"
  "de_name (RootDirectory_at floppy_root 1) = bytes_of_string ''FILE    TXT''"
  by (simp_all add: de_name_RootDirectory_at floppy_root_def kernel_entry_def file_entry_def
      bytes_of_string_def)

lemma floppy_root_free:
  assumes "2 \<le> j" "j < 224"
  shows "de_name (RootDirectory_at floppy_root j) = replicate 11 0"
proof -
  have "drop (32 * j) floppy_root = replicate (7168 - 32 * j) 0"
    using assms by (simp add: floppy_root_def length_kernel_entry length_file_entry)
  moreover have "11 \<le> 7168 - 32 * j" using assms by simp
  ultimately show ?thesis by (simp add: de_name_RootDirectory_at min_absorb1)
qed

theorem FindFile_first_match_witness:
  "g_RootDirectory floppy_loaded = Some floppy_root \<and>
   sizeof_DirectoryEntry * unat (dirEntryCount (g_BootSector floppy_loaded)) \<le> length floppy_root \<and>
   length (bytes_of_string ''FILE    TXT'') = 11 \<and>
   FindFile (bytes_of_string ''FILE    TXT'') floppy_loaded = Inr (Some 1)"
  using FindFile_first_match [of floppy_loaded floppy_root "bytes_of_string ''FILE    TXT''" 1]
    floppy_root_names
  by (simp add: floppy_loaded_simps floppy_BootSector_simps length_floppy_root
      sizeof_DirectoryEntry_32 bytes_of_string_def)

text \<open>
  In a root directory of 224 zeroed entries the query of eleven zero bytes is found at
  index 0, so the lookup does not return \<open>NULL\<close> for every query.
\<close>

theorem FindFile_zeroed_counterexample:
  "length (replicate 11 0 :: bytes) = 11 \<and>
   g_RootDirectory zeroed_globals = Some (replicate 7168 0) \<and>
   unat (dirEntryCount (g_BootSector zeroed_globals)) = 224 \<and>
   FindFile (replicate 11 0) zeroed_globals = Inr (Some 0)"
proof -
  have "FindFile_from (replicate 11 0) zeroed_globals (of_nat 0) = Inr (Some 0)"
    by (subst FindFile_from_step [where buf = "replicate 7168 0"])
       (simp_all add: zeroed_globals_simps floppy_BootSector_simps de_name_RootDirectory_at)
  then show ?thesis
    by (simp add: FindFile_def zeroed_globals_simps floppy_BootSector_simps)
qed

text \<open>
  Claim C5, amended. On a loaded root directory whose \<open>dirEntryCount\<close> records are all
  zero bytes, \<open>FindFile\<close> returns \<open>NULL\<close> for every 11-byte query except the query of
  eleven zero bytes, which matches entry 0 when the directory has an entry at all.
\<close>

theorem FindFile_zeroed_directory:
  assumes "g_RootDirectory g = Some buf"
    and "sizeof_DirectoryEntry * unat (dirEntryCount (g_BootSector g)) \<le> length buf"
    and "take (sizeof_DirectoryEntry * unat (dirEntryCount (g_BootSector g))) buf
           = replicate (sizeof_DirectoryEntry * unat (dirEntryCount (g_BootSector g))) 0"
    and "length name = 11"
  shows "FindFile name g =
           (if name = replicate 11 0 \<and> 0 < unat (dirEntryCount (g_BootSector g))
            then Inr (Some 0) else Inr None)"
proof -
  let ?D = "unat (dirEntryCount (g_BootSector g))"
  have b: "32 * ?D \<le> length buf"
    using assms(2) by (simp add: sizeof_DirectoryEntry_32)
  have z: "take (32 * ?D) buf = replicate (32 * ?D) 0"
    using assms(3) by (simp add: sizeof_DirectoryEntry_32)
  have names: "de_name (RootDirectory_at buf j) = replicate 11 0" if "j < ?D" for j
  proof -
    have le: "32 * j + 11 \<le> 32 * ?D" using that by simp
    have "take 11 (drop (32 * j) buf) = take 11 (drop (32 * j) (take (32 * ?D) buf))"
      using le by (simp add: drop_take min_absorb1)
    also have "\<dots> = replicate 11 0"
      using le by (simp add: z min_absorb1)
    finally show ?thesis by (simp add: de_name_RootDirectory_at)
  qed
  from FindFile_cases [OF assms(1) b assms(4)] show ?thesis
  proof (elim disjE exE conjE)
    fix m
    assume m: "m < ?D" "de_name (RootDirectory_at buf m) = name"
      "\<forall>j<m. de_name (RootDirectory_at buf j) \<noteq> name" "FindFile name g = Inr (Some m)"
    from m(1,2) names have n0: "name = replicate 11 0" by auto
    have "m = 0"
    proof (rule ccontr)
      assume "m \<noteq> 0"
      then have "0 < m" by simp
      with m(3) have "de_name (RootDirectory_at buf 0) \<noteq> name" by blast
      moreover have "0 < ?D" using m(1) by simp
      ultimately show False using names [of 0] n0 by simp
    qed
    with m n0 show ?thesis by simp
  next
    assume none: "\<forall>j < ?D. de_name (RootDirectory_at buf j) \<noteq> name"
      and r: "FindFile name g = Inr None"
    have "\<not> (name = replicate 11 0 \<and> 0 < ?D)"
      using none names [of 0] by auto
    with r show ?thesis by simp
  qed
qed

theorem FindFile_zeroed_directory_witness:
  "g_RootDirectory zeroed_globals = Some (replicate 7168 0) \<and>
   sizeof_DirectoryEntry * unat (dirEntryCount (g_BootSector zeroed_globals))
     \<le> length (replicate 7168 0 :: bytes) \<and>
   take (sizeof_DirectoryEntry * unat (dirEntryCount (g_BootSector zeroed_globals)))
     (replicate 7168 0 :: bytes)
     = replicate (sizeof_DirectoryEntry * unat (dirEntryCount (g_BootSector zeroed_globals))) 0 \<and>
   length (bytes_of_string ''FILE    TXT'') = 11 \<and>
   FindFile (bytes_of_string ''FILE    TXT'') zeroed_globals = Inr None"
  using FindFile_zeroed_directory [of zeroed_globals "replicate 7168 0" "bytes_of_string ''FILE    TXT''"]
  by (simp add: zeroed_globals_simps floppy_BootSector_simps sizeof_DirectoryEntry_32
      bytes_of_string_def replicate_11)

subsection \<open>Loading the allocation table\<close>

lemma nat_uint_mult_16: "nat (uint (a :: uint16_t) * uint (b :: uint16_t)) = unat a * unat b"
  by (simp add: nat_mult_distrib)

lemma uint_mult_16_overflow:
  "(INT_MAX < uint (a :: uint16_t) * uint (b :: uint16_t)) = (2147483647 < unat a * unat b)"
proof -
  have "uint a * uint b = int (unat a * unat b)"
    by (simp only: uint_nat of_nat_mult)
  moreover have "(2147483647 < int m) = (2147483647 < m)" for m
    by linarith
  ultimately show ?thesis by (simp only: INT_MAX_def)
qed

lemma ReadFAT_result:
  assumes "unat (sectorsPerFat (g_BootSector g)) * unat (bytesPerSector (g_BootSector g)) \<le> 2147483647"
  shows "ReadFAT disk g =
     (case ReadDiskSectors disk (ucast (reservedSectors (g_BootSector g)))
             (ucast (sectorsPerFat (g_BootSector g)))
             (malloc (unat (sectorsPerFat (g_BootSector g)) * unat (bytesPerSector (g_BootSector g)))) g
      of Inl f \<Rightarrow> Inl f
       | Inr (ok, disk', buf) \<Rightarrow> Inr (ok, disk', g\<lparr>g_Fat := Some buf\<rparr>))"
proof -
  have "\<not> INT_MAX < uint (sectorsPerFat (g_BootSector g)) * uint (bytesPerSector (g_BootSector g))"
    using assms by (simp only: uint_mult_16_overflow not_less)
  then show ?thesis
    by (simp only: ReadFAT_def Let_def nat_uint_mult_16 if_False)
qed

lemma ReadFAT_returns:
  assumes "unat (sectorsPerFat (g_BootSector g)) * unat (bytesPerSector (g_BootSector g)) \<le> 2147483647"
  shows "\<exists>ok disk' buf. ReadFAT disk g = Inr (ok, disk', g\<lparr>g_Fat := Some buf\<rparr>) \<and>
           length buf = unat (sectorsPerFat (g_BootSector g)) * unat (bytesPerSector (g_BootSector g))"
proof -
  let ?n = "unat (sectorsPerFat (g_BootSector g)) * unat (bytesPerSector (g_BootSector g))"
  have "unat (ucast (sectorsPerFat (g_BootSector g)) :: uint32_t)
          * unat (bytesPerSector (g_BootSector g)) \<le> length (malloc ?n)"
    by (simp add: malloc_def unat_ucast_16_32)
  from ReadDiskSectors_length [OF this, of disk "ucast (reservedSectors (g_BootSector g))"]
  obtain ok disk' buf' where
    "ReadDiskSectors disk (ucast (reservedSectors (g_BootSector g)))
       (ucast (sectorsPerFat (g_BootSector g))) (malloc ?n) g = Inr (ok, disk', buf')"
    "length buf' = length (malloc ?n)"
    by blast
  then show ?thesis
    by (auto simp: ReadFAT_result [OF assms] malloc_def)
qed

lemma ReadFAT_overflow:
  assumes "2147483647 < unat (sectorsPerFat (g_BootSector g)) * unat (bytesPerSector (g_BootSector g))"
  shows "ReadFAT disk g = Inl SignedOverflow"
proof -
  have "INT_MAX < uint (sectorsPerFat (g_BootSector g)) * uint (bytesPerSector (g_BootSector g))"
    using assms by (simp only: uint_mult_16_overflow)
  then show ?thesis
    by (simp only: ReadFAT_def Let_def if_True)
qed

lemma ReadFAT_ok:
  assumes "file_seekable disk" "bytesPerSector (g_BootSector g) \<noteq> 0"
    and "unat (sectorsPerFat (g_BootSector g)) * unat (bytesPerSector (g_BootSector g)) \<le> 2147483647"
    and "(unat (reservedSectors (g_BootSector g)) mod 256) * unat (bytesPerSector (g_BootSector g))
           + unat (sectorsPerFat (g_BootSector g)) * unat (bytesPerSector (g_BootSector g))
         \<le> length (file_data disk)"
  shows "ReadFAT disk g =
     Inr (True,
          disk\<lparr>file_pos := (unat (reservedSectors (g_BootSector g)) mod 256)
                                * unat (bytesPerSector (g_BootSector g))
                     + unat (sectorsPerFat (g_BootSector g)) * unat (bytesPerSector (g_BootSector g))\<rparr>,
          g\<lparr>g_Fat := Some (take (unat (sectorsPerFat (g_BootSector g)) * unat (bytesPerSector (g_BootSector g)))
                  (drop ((unat (reservedSectors (g_BootSector g)) mod 256)
                          * unat (bytesPerSector (g_BootSector g))) (file_data disk)))\<rparr>)"
  using assms
  by (simp add: ReadFAT_result ReadDiskSectors_ok unat_ucast_16_8 unat_ucast_16_32 malloc_def)

subsection \<open>Loading the root directory\<close>

lemma unat_RootDirectory_lba:
  "unat (RootDirectory_lba bs) =
     unat (reservedSectors bs) + unat (sectorsPerFat bs) * unat (fatCount bs)"
proof -
  let ?n = "unat (reservedSectors bs) + unat (sectorsPerFat bs) * unat (fatCount bs)"
  have "unat (sectorsPerFat bs) * unat (fatCount bs) \<le> 65535 * 255"
    using unat_lt16 [of "sectorsPerFat bs"] unat_lt8 [of "fatCount bs"]
    by (intro mult_le_mono) simp_all
  then have lt: "?n < 4294967296" using unat_lt16 [of "reservedSectors bs"] by simp
  have "uint (reservedSectors bs) + uint (sectorsPerFat bs) * uint (fatCount bs) = int ?n"
    by (simp only: uint_nat of_nat_mult of_nat_add)
  then have "RootDirectory_lba bs = of_nat ?n"
    by (simp only: RootDirectory_lba_def of_int_of_nat_eq)
  then show ?thesis by (simp only: unat_of_nat_32 [OF lt])
qed

lemma unat_RootDirectory_size:
  "unat (RootDirectory_size bs) = 32 * unat (dirEntryCount bs)"
proof -
  have "32 * unat (dirEntryCount bs) < 4294967296"
    using unat_lt16 [of "dirEntryCount bs"] by simp
  then show ?thesis
    unfolding RootDirectory_size_def sizeof_DirectoryEntry_32 by (rule unat_of_nat_32)
qed

lemma unat_RootDirectory_sectors:
  assumes "bytesPerSector bs \<noteq> 0"
  shows "unat (RootDirectory_sectors bs) =
     (if (32 * unat (dirEntryCount bs)) mod unat (bytesPerSector bs) = 0
      then (32 * unat (dirEntryCount bs)) div unat (bytesPerSector bs)
      else (32 * unat (dirEntryCount bs)) div unat (bytesPerSector bs) + 1)"
proof -
  let ?sz = "RootDirectory_size bs"
  let ?b = "ucast (bytesPerSector bs) :: uint32_t"
  have d: "unat (?sz div ?b) = (32 * unat (dirEntryCount bs)) div unat (bytesPerSector bs)"
    by (simp add: unat_div unat_RootDirectory_size unat_ucast_16_32)
  have m: "unat (?sz mod ?b) = (32 * unat (dirEntryCount bs)) mod unat (bytesPerSector bs)"
    by (simp add: unat_mod unat_RootDirectory_size unat_ucast_16_32)
  have "(32 * unat (dirEntryCount bs)) div unat (bytesPerSector bs) \<le> 32 * unat (dirEntryCount bs)"
    by (rule div_le_dividend)
  moreover have "32 * unat (dirEntryCount bs) < 2097152"
    using unat_lt16 [of "dirEntryCount bs"] by simp
  ultimately have "(32 * unat (dirEntryCount bs)) div unat (bytesPerSector bs) + 1 < 4294967296"
    by linarith
  then have "unat (?sz div ?b) + unat (1 :: uint32_t) < 2 ^ LENGTH(32)"
    by (simp only: d) simp
  then have inc: "unat (?sz div ?b + 1) = unat (?sz div ?b) + 1"
    by (simp only: unat_add_lem [THEN iffD1] unat_1)
  have pos: "(0 < ?sz mod ?b) = ((32 * unat (dirEntryCount bs)) mod unat (bytesPerSector bs) \<noteq> 0)"
    by (simp add: word_less_nat_alt m)
  show ?thesis
    by (simp add: RootDirectory_sectors_def Let_def pos inc d)
qed

lemma RootDirectory_sectors_ceiling:
  assumes "bytesPerSector bs \<noteq> 0"
  shows "32 * unat (dirEntryCount bs)
           \<le> unat (RootDirectory_sectors bs) * unat (bytesPerSector bs)"
    and "32 * unat (dirEntryCount bs) \<le> t * unat (bytesPerSector bs)
           \<Longrightarrow> unat (RootDirectory_sectors bs) \<le> t"
    and "unat (RootDirectory_sectors bs) * unat (bytesPerSector bs)
           < 32 * unat (dirEntryCount bs) + unat (bytesPerSector bs)"
proof -
  define b where "b = unat (bytesPerSector bs)"
  define x where "x = 32 * unat (dirEntryCount bs)"
  have b0: "0 < b" using assms by (simp add: b_def unat_gt_0)
  have s: "unat (RootDirectory_sectors bs) = (if x mod b = 0 then x div b else x div b + 1)"
    using unat_RootDirectory_sectors [OF assms] by (simp add: b_def x_def)
  have dm: "x = (x div b) * b + x mod b" by simp
  have ml: "x mod b < b" using b0 by simp
  show "32 * unat (dirEntryCount bs)
           \<le> unat (RootDirectory_sectors bs) * unat (bytesPerSector bs)"
  proof (cases "x mod b = 0")
    case True
    with dm s show ?thesis by (simp add: b_def [symmetric] x_def [symmetric])
  next
    case False
    have "x \<le> (x div b) * b + b" using dm ml by linarith
    with False s show ?thesis by (simp add: b_def [symmetric] x_def [symmetric])
  qed
  show "unat (RootDirectory_sectors bs) * unat (bytesPerSector bs)
           < 32 * unat (dirEntryCount bs) + unat (bytesPerSector bs)"
  proof (cases "x mod b = 0")
    case True
    with dm s b0 show ?thesis by (simp add: b_def [symmetric] x_def [symmetric])
  next
    case False
    then have "0 < x mod b" by simp
    then have "(x div b) * b + b < x + b" using dm by linarith
    with False s show ?thesis by (simp add: b_def [symmetric] x_def [symmetric])
  qed
  show "unat (RootDirectory_sectors bs) \<le> t"
    if "32 * unat (dirEntryCount bs) \<le> t * unat (bytesPerSector bs)"
  proof -
    from that have xt: "x \<le> t * b" by (simp add: b_def x_def)
    then have d: "x div b \<le> t" using b0
      by (metis div_le_mono nonzero_mult_div_cancel_right less_numeral_extra(3))
    show ?thesis
    proof (cases "x mod b = 0")
      case True
      with s d show ?thesis by simp
    next
      case False
      have "x div b \<noteq> t"
      proof
        assume "x div b = t"
        with dm have "x = t * b + x mod b" by simp
        with xt False show False by simp
      qed
      with d have "x div b + 1 \<le> t" by simp
      with False s show ?thesis by simp
    qed
  qed
qed

lemma unat_RootDirectory_bytes:
  assumes "bytesPerSector bs \<noteq> 0"
  shows "unat (RootDirectory_sectors bs * ucast (bytesPerSector bs))
         = unat (RootDirectory_sectors bs) * unat (bytesPerSector bs)"
proof -
  have "unat (RootDirectory_sectors bs) * unat (bytesPerSector bs)
          < 32 * unat (dirEntryCount bs) + unat (bytesPerSector bs)"
    by (rule RootDirectory_sectors_ceiling(3) [OF assms])
  also have "\<dots> < 4294967296"
    using unat_lt16 [of "dirEntryCount bs"] unat_lt16 [of "bytesPerSector bs"] by simp
  finally have "unat (RootDirectory_sectors bs) * unat (ucast (bytesPerSector bs) :: uint32_t)
          < 2 ^ LENGTH(32)"
    by (simp add: unat_ucast_16_32)
  then show ?thesis
    by (simp only: unat_mult_lem [THEN iffD1] unat_ucast_16_32)
qed

lemma ReadRootDirectory_result:
  assumes "bytesPerSector (g_BootSector g) \<noteq> 0"
  shows "ReadRootDirectory disk g =
     (case ReadDiskSectors disk (ucast (RootDirectory_lba (g_BootSector g)))
             (RootDirectory_sectors (g_BootSector g))
             (malloc (unat (RootDirectory_sectors (g_BootSector g))
                      * unat (bytesPerSector (g_BootSector g)))) g
      of Inl f \<Rightarrow> Inl f
       | Inr (ok, disk', buf) \<Rightarrow> Inr (ok, disk', g\<lparr>g_RootDirectory := Some buf\<rparr>))"
  using assms
  by (simp add: ReadRootDirectory_def Let_def unat_RootDirectory_bytes)

lemma ReadRootDirectory_returns:
  assumes "bytesPerSector (g_BootSector g) \<noteq> 0"
  shows "\<exists>ok disk' buf.
           ReadRootDirectory disk g = Inr (ok, disk', g\<lparr>g_RootDirectory := Some buf\<rparr>) \<and>
           length buf = unat (RootDirectory_sectors (g_BootSector g))
                          * unat (bytesPerSector (g_BootSector g))"
proof -
  let ?n = "unat (RootDirectory_sectors (g_BootSector g)) * unat (bytesPerSector (g_BootSector g))"
  have "unat (RootDirectory_sectors (g_BootSector g)) * unat (bytesPerSector (g_BootSector g))
          \<le> length (malloc ?n)"
    by (simp add: malloc_def)
  from ReadDiskSectors_length [OF this, of disk "ucast (RootDirectory_lba (g_BootSector g))"]
  obtain ok disk' buf' where
    "ReadDiskSectors disk (ucast (RootDirectory_lba (g_BootSector g)))
       (RootDirectory_sectors (g_BootSector g)) (malloc ?n) g = Inr (ok, disk', buf')"
    "length buf' = length (malloc ?n)"
    by blast
  then show ?thesis
    by (auto simp: ReadRootDirectory_result [OF assms] malloc_def)
qed

lemma ReadRootDirectory_zero_sector_size:
  "bytesPerSector (g_BootSector g) = 0 \<Longrightarrow> ReadRootDirectory disk g = Inl DivisionByZero"
  by (simp add: ReadRootDirectory_def Let_def)

lemma ReadRootDirectory_ok:
  assumes "file_seekable disk" "bytesPerSector (g_BootSector g) \<noteq> 0"
    and "(unat (RootDirectory_lba (g_BootSector g)) mod 256) * unat (bytesPerSector (g_BootSector g))
           + unat (RootDirectory_sectors (g_BootSector g)) * unat (bytesPerSector (g_BootSector g))
         \<le> length (file_data disk)"
  shows "ReadRootDirectory disk g =
     Inr (True,
          disk\<lparr>file_pos := (unat (RootDirectory_lba (g_BootSector g)) mod 256)
                                * unat (bytesPerSector (g_BootSector g))
                     + unat (RootDirectory_sectors (g_BootSector g))
                       * unat (bytesPerSector (g_BootSector g))\<rparr>,
          g\<lparr>g_RootDirectory :=
               Some (take (unat (RootDirectory_sectors (g_BootSector g))
                           * unat (bytesPerSector (g_BootSector g)))
                  (drop ((unat (RootDirectory_lba (g_BootSector g)) mod 256)
                          * unat (bytesPerSector (g_BootSector g))) (file_data disk)))\<rparr>)"
  using assms
  by (simp add: ReadRootDirectory_result ReadDiskSectors_ok unat_ucast_32_8 malloc_def)

subsection \<open>The boot sector is written once\<close>

lemma ReadFAT_BootSector:
  "ReadFAT disk g = Inr (ok, disk', g') \<Longrightarrow> g_BootSector g' = g_BootSector g"
  by (auto simp: ReadFAT_def Let_def split: if_splits sum.splits)

lemma ReadRootDirectory_BootSector:
  "ReadRootDirectory disk g = Inr (ok, disk', g') \<Longrightarrow> g_BootSector g' = g_BootSector g"
  by (auto simp: ReadRootDirectory_def Let_def split: if_splits sum.splits)

lemma main_BootSector:
  assumes "3 \<le> argc" "ReadBootSector disk g = Inr (True, disk1, g1)"
    and "main argc (Some disk) name g = Inr (rc, d', g')"
  shows "g_BootSector g' = g_BootSector g1"
proof -
  from assms(1) have a: "\<not> argc < 3" by simp
  show ?thesis
  proof (cases "ReadFAT disk1 g1")
    case (Inl f)
    with assms a show ?thesis by (simp add: main_def)
  next
    case (Inr r2)
    obtain ok2 disk2 g2 where r2: "r2 = (ok2, disk2, g2)" by (cases r2)
    have b2: "g_BootSector g2 = g_BootSector g1"
      using Inr r2 by (auto dest: ReadFAT_BootSector)
    show ?thesis
    proof (cases ok2)
      case False
      with assms a Inr r2 b2 show ?thesis by (auto simp: main_def)
    next
      case ok2: True
      show ?thesis
      proof (cases "ReadRootDirectory disk2 g2")
        case (Inl f)
        with assms a \<open>ReadFAT disk1 g1 = Inr r2\<close> r2 ok2 show ?thesis by (simp add: main_def)
      next
        case r3': (Inr r3)
        obtain ok3 disk3 g3 where r3: "r3 = (ok3, disk3, g3)" by (cases r3)
        have b3: "g_BootSector g3 = g_BootSector g1"
          using r3' r3 b2 by (auto dest: ReadRootDirectory_BootSector)
        from assms a \<open>ReadFAT disk1 g1 = Inr r2\<close> r2 ok2 r3' r3 b3 show ?thesis
          by (auto simp: main_def split: if_splits sum.splits option.splits)
      qed
    qed
  qed
qed

text \<open>
  Claim C9. Once \<open>ReadBootSector\<close> has succeeded, \<open>g_BootSector\<close> keeps the decoded
  value: \<open>ReadFAT\<close> and \<open>ReadRootDirectory\<close> return globals with the same boot sector,
  and the globals with which \<open>main\<close> exits, after the lookup or after whichever stage
  failed, still hold the boot sector that was decoded. \<open>FindFile\<close> assigns no global.
\<close>

theorem BootSector_unchanged_after_decode:
  "(ReadFAT disk g = Inr (ok, disk', g') \<longrightarrow> g_BootSector g' = g_BootSector g) \<and>
   (ReadRootDirectory disk g = Inr (ok, disk', g') \<longrightarrow> g_BootSector g' = g_BootSector g) \<and>
   (3 \<le> argc \<and> ReadBootSector disk0 g0 = Inr (True, disk1, g1) \<and>
      main argc (Some disk0) name g0 = Inr (rc, dopt, gexit)
      \<longrightarrow> g_BootSector gexit = g_BootSector g1)"
  using ReadFAT_BootSector [of disk g ok disk' g']
    ReadRootDirectory_BootSector [of disk g ok disk' g']
    main_BootSector [of argc disk0 g0 disk1 g1 name rc dopt gexit]
  by blast

subsection \<open>The lookup stays inside the loaded buffer\<close>

lemma ReadRootDirectory_buffer:
  assumes "ReadRootDirectory disk g = Inr (ok, disk', g')"
  shows "bytesPerSector (g_BootSector g) \<noteq> 0"
    and "\<exists>buf. g_RootDirectory g' = Some buf \<and>
           length buf = unat (RootDirectory_sectors (g_BootSector g))
                          * unat (bytesPerSector (g_BootSector g))"
proof -
  show nz: "bytesPerSector (g_BootSector g) \<noteq> 0"
    using assms by (auto simp: ReadRootDirectory_zero_sector_size)
  from ReadRootDirectory_returns [OF nz, of disk] assms
  show "\<exists>buf. g_RootDirectory g' = Some buf \<and>
           length buf = unat (RootDirectory_sectors (g_BootSector g))
                          * unat (bytesPerSector (g_BootSector g))"
    by auto
qed

text \<open>
  The allocation matters: one byte less than the 14 sectors of the floppy's root
  directory, and the read writes past the object.
\<close>

lemma ReadDiskSectors_undersized_destination:
  "ReadDiskSectors floppy_disk 19 14 (malloc 7167) floppy_decoded = Inl OutOfBounds"
  by (rule ReadDiskSectors_overrun)
     (simp_all add: floppy_disk_simps floppy_decoded_simps floppy_BootSector_simps
        length_floppy_image malloc_def)

lemma FindFile_empty:
  assumes "dirEntryCount (g_BootSector g) = 0"
  shows "FindFile name g = Inr None"
  using FindFile_from_end [of name g] assms by (simp add: FindFile_def)

text \<open>
  Claim C10. With a sector size other than 0, \<open>ReadRootDirectory\<close> allocates
  \<open>sectors * bytesPerSector\<close> bytes and its read never writes past them: it returns,
  with \<open>g_RootDirectory\<close> pointing to an object of exactly that many bytes. When it has
  returned, every 32-byte record with index below \<open>dirEntryCount\<close> lies inside that
  object, and \<open>FindFile\<close> on an 11-byte query returns without reading outside it; with
  \<open>dirEntryCount = 0\<close> it returns \<open>NULL\<close>.
\<close>

theorem FindFile_within_RootDirectory:
  "(bytesPerSector (g_BootSector g) \<noteq> 0 \<longrightarrow>
      (\<exists>ok' disk'' buf.
          ReadRootDirectory disk g = Inr (ok', disk'', g\<lparr>g_RootDirectory := Some buf\<rparr>) \<and>
          length buf = unat (RootDirectory_sectors (g_BootSector g))
                         * unat (bytesPerSector (g_BootSector g)))) \<and>
   (ReadRootDirectory disk g = Inr (ok, disk', g') \<longrightarrow>
      (\<exists>buf. g_RootDirectory g' = Some buf \<and>
           length buf = unat (RootDirectory_sectors (g_BootSector g))
                          * unat (bytesPerSector (g_BootSector g)) \<and>
           (\<forall>i < unat (dirEntryCount (g_BootSector g')).
               sizeof_DirectoryEntry * i + sizeof_DirectoryEntry \<le> length buf) \<and>
           (length name = 11 \<longrightarrow> (\<exists>r. FindFile name g' = Inr r)) \<and>
           (dirEntryCount (g_BootSector g') = 0 \<longrightarrow> FindFile name g' = Inr None)))"
proof (intro conjI impI)
  assume "bytesPerSector (g_BootSector g) \<noteq> 0"
  then show "\<exists>ok' disk'' buf.
          ReadRootDirectory disk g = Inr (ok', disk'', g\<lparr>g_RootDirectory := Some buf\<rparr>) \<and>
          length buf = unat (RootDirectory_sectors (g_BootSector g))
                         * unat (bytesPerSector (g_BootSector g))"
    by (rule ReadRootDirectory_returns)
next
  assume r: "ReadRootDirectory disk g = Inr (ok, disk', g')"
  have bs: "g_BootSector g' = g_BootSector g"
    using r by (rule ReadRootDirectory_BootSector)
  have nz: "bytesPerSector (g_BootSector g) \<noteq> 0"
    using r by (rule ReadRootDirectory_buffer(1))
  obtain buf where buf: "g_RootDirectory g' = Some buf"
    "length buf = unat (RootDirectory_sectors (g_BootSector g))
                    * unat (bytesPerSector (g_BootSector g))"
    using ReadRootDirectory_buffer(2) [OF r] by blast
  have cap: "32 * unat (dirEntryCount (g_BootSector g')) \<le> length buf"
    using RootDirectory_sectors_ceiling(1) [OF nz] by (simp add: buf(2) bs)
  have inside: "\<forall>i < unat (dirEntryCount (g_BootSector g')).
      sizeof_DirectoryEntry * i + sizeof_DirectoryEntry \<le> length buf"
    using cap by (auto simp: sizeof_DirectoryEntry_32)
  have nofault: "\<exists>r. FindFile name g' = Inr r" if "length name = 11"
    using FindFile_cases [OF buf(1) cap that] by blast
  have empty: "FindFile name g' = Inr None" if "dirEntryCount (g_BootSector g') = 0"
    using that by (rule FindFile_empty)
  from buf inside nofault empty
  show "\<exists>buf. g_RootDirectory g' = Some buf \<and>
           length buf = unat (RootDirectory_sectors (g_BootSector g))
                          * unat (bytesPerSector (g_BootSector g)) \<and>
           (\<forall>i < unat (dirEntryCount (g_BootSector g')).
               sizeof_DirectoryEntry * i + sizeof_DirectoryEntry \<le> length buf) \<and>
           (length name = 11 \<longrightarrow> (\<exists>r. FindFile name g' = Inr r)) \<and>
           (dirEntryCount (g_BootSector g') = 0 \<longrightarrow> FindFile name g' = Inr None)"
    by blast
qed

subsection \<open>The pipeline on the floppy geometry\<close>

lemma RootDirectory_sectors_examples:
  "bytesPerSector bs = 512 \<Longrightarrow> dirEntryCount bs = 224 \<Longrightarrow> unat (RootDirectory_sectors bs) = 14"
  "bytesPerSector bs = 512 \<Longrightarrow> dirEntryCount bs = 225 \<Longrightarrow> unat (RootDirectory_sectors bs) = 15"
  by (simp_all add: unat_RootDirectory_sectors)

lemma ReadFAT_floppy_geometry:
  assumes "file_seekable d" "16896 \<le> length (file_data d)"
    and "bytesPerSector (g_BootSector g) = 512" "reservedSectors (g_BootSector g) = 1"
    and "sectorsPerFat (g_BootSector g) = 9"
  shows "ReadFAT d g =
     Inr (True, d\<lparr>file_pos := 5120\<rparr>, g\<lparr>g_Fat := Some (take 4608 (drop 512 (file_data d)))\<rparr>)"
  using ReadFAT_ok [of d g] assms by simp

lemma ReadRootDirectory_floppy_geometry:
  assumes "file_seekable d" "16896 \<le> length (file_data d)"
    and "bytesPerSector (g_BootSector g) = 512" "reservedSectors (g_BootSector g) = 1"
    and "sectorsPerFat (g_BootSector g) = 9" "fatCount (g_BootSector g) = 2"
    and "dirEntryCount (g_BootSector g) = 224"
  shows "ReadRootDirectory d g =
     Inr (True, d\<lparr>file_pos := 16896\<rparr>,
          g\<lparr>g_RootDirectory := Some (take 7168 (drop 9728 (file_data d)))\<rparr>)"
  using ReadRootDirectory_ok [of d g] assms
  by (simp add: unat_RootDirectory_lba RootDirectory_sectors_examples(1))

lemma main_floppy_geometry:
  assumes "file_data disk = img" "file_pos disk = 0" "file_seekable disk" "16896 \<le> length img"
    and "bytesPerSector (BootSector_of_bytes img) = 512"
    and "reservedSectors (BootSector_of_bytes img) = 1"
    and "fatCount (BootSector_of_bytes img) = 2"
    and "sectorsPerFat (BootSector_of_bytes img) = 9"
    and "dirEntryCount (BootSector_of_bytes img) = 224"
  shows "ReadBootSector disk g =
           Inr (True, disk\<lparr>file_pos := 62\<rparr>, g\<lparr>g_BootSector := BootSector_of_bytes img\<rparr>)"
    and "ReadFAT (disk\<lparr>file_pos := 62\<rparr>) (g\<lparr>g_BootSector := BootSector_of_bytes img\<rparr>) =
           Inr (True, disk\<lparr>file_pos := 5120\<rparr>,
                g\<lparr>g_BootSector := BootSector_of_bytes img,
                   g_Fat := Some (take 4608 (drop 512 img))\<rparr>)"
    and "ReadRootDirectory (disk\<lparr>file_pos := 5120\<rparr>)
           (g\<lparr>g_BootSector := BootSector_of_bytes img,
              g_Fat := Some (take 4608 (drop 512 img))\<rparr>) =
           Inr (True, disk\<lparr>file_pos := 16896\<rparr>,
                g\<lparr>g_BootSector := BootSector_of_bytes img,
                   g_Fat := Some (take 4608 (drop 512 img)),
                   g_RootDirectory := Some (take 7168 (drop 9728 img))\<rparr>)"
    and "main 3 (Some disk) name g =
           (case FindFile name
                   (g\<lparr>g_BootSector := BootSector_of_bytes img,
                      g_Fat := Some (take 4608 (drop 512 img)),
                      g_RootDirectory := Some (take 7168 (drop 9728 img))\<rparr>) of
              Inl f \<Rightarrow> Inl f
            | Inr None \<Rightarrow>
                Inr (- 5, Some (disk\<lparr>file_pos := 16896\<rparr>),
                     g\<lparr>g_BootSector := BootSector_of_bytes img,
                        g_Fat := Some (take 4608 (drop 512 img)),
                        g_RootDirectory := Some (take 7168 (drop 9728 img))\<rparr>)
            | Inr (Some i) \<Rightarrow>
                Inr (0, Some (disk\<lparr>file_pos := 16896\<rparr>),
                     g\<lparr>g_BootSector := BootSector_of_bytes img,
                        g_Fat := Some (take 4608 (drop 512 img)),
                        g_RootDirectory := Some (take 7168 (drop 9728 img))\<rparr>))"
proof -
  show 1: "ReadBootSector disk g =
           Inr (True, disk\<lparr>file_pos := 62\<rparr>, g\<lparr>g_BootSector := BootSector_of_bytes img\<rparr>)"
    using ReadBootSector_ok [of disk g] assms(1,2,4) by simp
  show 2: "ReadFAT (disk\<lparr>file_pos := 62\<rparr>) (g\<lparr>g_BootSector := BootSector_of_bytes img\<rparr>) =
           Inr (True, disk\<lparr>file_pos := 5120\<rparr>,
                g\<lparr>g_BootSector := BootSector_of_bytes img,
                   g_Fat := Some (take 4608 (drop 512 img))\<rparr>)"
    using ReadFAT_floppy_geometry [of "disk\<lparr>file_pos := 62\<rparr>"
        "g\<lparr>g_BootSector := BootSector_of_bytes img\<rparr>"] assms
    by simp
  show 3: "ReadRootDirectory (disk\<lparr>file_pos := 5120\<rparr>)
           (g\<lparr>g_BootSector := BootSector_of_bytes img,
              g_Fat := Some (take 4608 (drop 512 img))\<rparr>) =
           Inr (True, disk\<lparr>file_pos := 16896\<rparr>,
                g\<lparr>g_BootSector := BootSector_of_bytes img,
                   g_Fat := Some (take 4608 (drop 512 img)),
                   g_RootDirectory := Some (take 7168 (drop 9728 img))\<rparr>)"
    using ReadRootDirectory_floppy_geometry [of "disk\<lparr>file_pos := 5120\<rparr>"
        "g\<lparr>g_BootSector := BootSector_of_bytes img,
           g_Fat := Some (take 4608 (drop 512 img))\<rparr>"] assms
    by simp
  show "main 3 (Some disk) name g =
           (case FindFile name
                   (g\<lparr>g_BootSector := BootSector_of_bytes img,
                      g_Fat := Some (take 4608 (drop 512 img)),
                      g_RootDirectory := Some (take 7168 (drop 9728 img))\<rparr>) of
              Inl f \<Rightarrow> Inl f
            | Inr None \<Rightarrow>
                Inr (- 5, Some (disk\<lparr>file_pos := 16896\<rparr>),
                     g\<lparr>g_BootSector := BootSector_of_bytes img,
                        g_Fat := Some (take 4608 (drop 512 img)),
                        g_RootDirectory := Some (take 7168 (drop 9728 img))\<rparr>)
            | Inr (Some i) \<Rightarrow>
                Inr (0, Some (disk\<lparr>file_pos := 16896\<rparr>),
                     g\<lparr>g_BootSector := BootSector_of_bytes img,
                        g_Fat := Some (take 4608 (drop 512 img)),
                        g_RootDirectory := Some (take 7168 (drop 9728 img))\<rparr>))"
    by (simp add: main_def 1 2 3)
qed

text \<open>
  Claim C1. On a 1.44MB image whose boot sector decodes to 512 bytes per sector, 1
  reserved sector, 2 tables of 9 sectors and 224 root entries, and whose root directory
  (14 sectors from sector 19) has \<open>FILE    TXT\<close> with size 4096 as the first entry
  of that name and no entry named \<open>NOFILE  TXT\<close>: the three loads succeed, the lookup
  of \<open>FILE    TXT\<close> returns that entry, whose size member is 4096, and \<open>main\<close> exits
  with 0; the lookup of \<open>NOFILE  TXT\<close> returns \<open>NULL\<close> and \<open>main\<close> exits with -5.
\<close>

theorem floppy_pipeline_finds_file:
  assumes "file_data disk = img" "file_pos disk = 0" "file_seekable disk"
    and "length img = 1474560"
    and "bytesPerSector (BootSector_of_bytes img) = 512"
    and "reservedSectors (BootSector_of_bytes img) = 1"
    and "fatCount (BootSector_of_bytes img) = 2"
    and "sectorsPerFat (BootSector_of_bytes img) = 9"
    and "dirEntryCount (BootSector_of_bytes img) = 224"
    and "root = take 7168 (drop 9728 img)"
    and "k < 224"
    and "de_name (RootDirectory_at root k) = bytes_of_string ''FILE    TXT''"
    and "de_size (RootDirectory_at root k) = 4096"
    and "\<forall>j<k. de_name (RootDirectory_at root j) \<noteq> bytes_of_string ''FILE    TXT''"
    and "\<forall>j<224. de_name (RootDirectory_at root j) \<noteq> bytes_of_string ''NOFILE  TXT''"
    and "loaded = g\<lparr>g_BootSector := BootSector_of_bytes img,
                      g_Fat := Some (take 4608 (drop 512 img)),
                      g_RootDirectory := Some root\<rparr>"
  shows "ReadBootSector disk g =
           Inr (True, disk\<lparr>file_pos := 62\<rparr>, g\<lparr>g_BootSector := BootSector_of_bytes img\<rparr>) \<and>
         ReadFAT (disk\<lparr>file_pos := 62\<rparr>) (g\<lparr>g_BootSector := BootSector_of_bytes img\<rparr>) =
           Inr (True, disk\<lparr>file_pos := 5120\<rparr>,
                g\<lparr>g_BootSector := BootSector_of_bytes img,
                   g_Fat := Some (take 4608 (drop 512 img))\<rparr>) \<and>
         ReadRootDirectory (disk\<lparr>file_pos := 5120\<rparr>)
           (g\<lparr>g_BootSector := BootSector_of_bytes img,
              g_Fat := Some (take 4608 (drop 512 img))\<rparr>) =
           Inr (True, disk\<lparr>file_pos := 16896\<rparr>, loaded) \<and>
         FindFile (bytes_of_string ''FILE    TXT'') loaded = Inr (Some k) \<and>
         de_size (RootDirectory_at root k) = 4096 \<and>
         FindFile (bytes_of_string ''NOFILE  TXT'') loaded = Inr None \<and>
         main 3 (Some disk) (bytes_of_string ''FILE    TXT'') g =
           Inr (0, Some (disk\<lparr>file_pos := 16896\<rparr>), loaded) \<and>
         main 3 (Some disk) (bytes_of_string ''NOFILE  TXT'') g =
           Inr (- 5, Some (disk\<lparr>file_pos := 16896\<rparr>), loaded)"
proof -
  have len: "16896 \<le> length img" using assms(4) by simp
  note steps = main_floppy_geometry [OF assms(1-3) len assms(5-9), where g = g]
  have rd: "g_RootDirectory loaded = Some root" by (simp add: assms(16))
  have cap: "32 * unat (dirEntryCount (g_BootSector loaded)) \<le> length root"
    using assms(4) by (simp add: assms(16) assms(9) assms(10))
  have d: "unat (dirEntryCount (g_BootSector loaded)) = 224"
    by (simp add: assms(16) assms(9))
  have l1: "length (bytes_of_string ''FILE    TXT'') = 11"
    and l2: "length (bytes_of_string ''NOFILE  TXT'') = 11"
    by (simp_all add: bytes_of_string_def)
  have f1: "FindFile (bytes_of_string ''FILE    TXT'') loaded = Inr (Some k)"
    using FindFile_from_first [OF rd cap l1, of k 0] assms(11,12,14)
    by (simp add: d FindFile_def)
  have f2: "FindFile (bytes_of_string ''NOFILE  TXT'') loaded = Inr None"
    using FindFile_from_none [OF rd cap l2, of 0] assms(15)
    by (simp add: d FindFile_def)
  have loaded: "g\<lparr>g_BootSector := BootSector_of_bytes img,
                   g_Fat := Some (take 4608 (drop 512 img)),
                   g_RootDirectory := Some (take 7168 (drop 9728 img))\<rparr> = loaded"
    by (simp add: assms(16) assms(10))
  show ?thesis
    using steps(1) steps(2) steps(3) f1 f2 assms(13)
      steps(4) [where name = "bytes_of_string ''FILE    TXT''"]
      steps(4) [where name = "bytes_of_string ''NOFILE  TXT''"]
    by (simp only: loaded) simp
qed

lemma floppy_image_decodes: "BootSector_of_bytes floppy_image = floppy_BootSector"
  by (simp add: BootSector_of_bytes_offsets length_floppy_image floppy_image_boot)

lemma floppy_file_size: "de_size (RootDirectory_at floppy_root 1) = 4096"
  by (simp add: RootDirectory_at_def sizeof_DirectoryEntry_32 floppy_root_def
      length_kernel_entry file_entry_def bytes_of_string_def DirectoryEntry_of_bytes_def
      get_array_def get_u8_def get_u16_def get_u32_def word_cat_eq)

lemma floppy_root_no_NOFILE:
  "\<forall>j<224. de_name (RootDirectory_at floppy_root j) \<noteq> bytes_of_string ''NOFILE  TXT''"
proof (intro allI impI)
  fix j :: nat
  assume j: "j < 224"
  consider "j = 0" | "j = 1" | "2 \<le> j" by linarith
  then show "de_name (RootDirectory_at floppy_root j) \<noteq> bytes_of_string ''NOFILE  TXT''"
  proof cases
    case 1
    then show ?thesis by (simp add: floppy_root_names(1) bytes_of_string_def)
  next
    case 2
    then show ?thesis using floppy_root_names(2) by (simp add: bytes_of_string_def)
  next
    case 3
    with j show ?thesis by (simp add: floppy_root_free bytes_of_string_def replicate_11)
  qed
qed

lemma floppy_root_first_FILE:
  "\<forall>j<1. de_name (RootDirectory_at floppy_root j) \<noteq> bytes_of_string ''FILE    TXT''"
  by (simp add: floppy_root_names(1) bytes_of_string_def)

lemma floppy_loaded_eq:
  "initial_globals\<lparr>g_BootSector := floppy_BootSector, g_Fat := Some floppy_fat,
                   g_RootDirectory := Some floppy_root\<rparr> = floppy_loaded"
  by (simp add: initial_globals_def floppy_loaded_def)

lemma floppy_run:
  "ReadBootSector floppy_disk initial_globals =
     Inr (True, floppy_disk\<lparr>file_pos := 62\<rparr>, floppy_decoded)"
  "ReadFAT (floppy_disk\<lparr>file_pos := 62\<rparr>) floppy_decoded =
     Inr (True, floppy_disk\<lparr>file_pos := 5120\<rparr>, floppy_decoded\<lparr>g_Fat := Some floppy_fat\<rparr>)"
  "ReadRootDirectory (floppy_disk\<lparr>file_pos := 5120\<rparr>) (floppy_decoded\<lparr>g_Fat := Some floppy_fat\<rparr>) =
     Inr (True, floppy_disk\<lparr>file_pos := 16896\<rparr>, floppy_loaded)"
  "main 3 (Some floppy_disk) name initial_globals =
     (case FindFile name floppy_loaded of
        Inl f \<Rightarrow> Inl f
      | Inr None \<Rightarrow> Inr (- 5, Some (floppy_disk\<lparr>file_pos := 16896\<rparr>), floppy_loaded)
      | Inr (Some i) \<Rightarrow> Inr (0, Some (floppy_disk\<lparr>file_pos := 16896\<rparr>), floppy_loaded))"
proof -
  have len: "16896 \<le> length floppy_image" by (simp add: length_floppy_image)
  note steps = main_floppy_geometry [OF floppy_disk_simps(1) floppy_disk_simps(2)
      floppy_disk_simps(3) len, unfolded floppy_image_decodes,
      OF floppy_BootSector_simps(1) floppy_BootSector_simps(2) floppy_BootSector_simps(3)
         floppy_BootSector_simps(4) floppy_BootSector_simps(5), where g = initial_globals,
      unfolded floppy_image_fat floppy_image_root floppy_loaded_eq]
  show "ReadBootSector floppy_disk initial_globals =
     Inr (True, floppy_disk\<lparr>file_pos := 62\<rparr>, floppy_decoded)"
    using steps(1) by (simp add: floppy_decoded_def)
  show "ReadFAT (floppy_disk\<lparr>file_pos := 62\<rparr>) floppy_decoded =
     Inr (True, floppy_disk\<lparr>file_pos := 5120\<rparr>, floppy_decoded\<lparr>g_Fat := Some floppy_fat\<rparr>)"
    using steps(2) by (simp add: floppy_decoded_def)
  show "ReadRootDirectory (floppy_disk\<lparr>file_pos := 5120\<rparr>) (floppy_decoded\<lparr>g_Fat := Some floppy_fat\<rparr>) =
     Inr (True, floppy_disk\<lparr>file_pos := 16896\<rparr>, floppy_loaded)"
    using steps(3) by (simp add: floppy_decoded_def)
  show "main 3 (Some floppy_disk) name initial_globals =
     (case FindFile name floppy_loaded of
        Inl f \<Rightarrow> Inl f
      | Inr None \<Rightarrow> Inr (- 5, Some (floppy_disk\<lparr>file_pos := 16896\<rparr>), floppy_loaded)
      | Inr (Some i) \<Rightarrow> Inr (0, Some (floppy_disk\<lparr>file_pos := 16896\<rparr>), floppy_loaded))"
    using steps(4) [of name] by simp
qed

theorem floppy_pipeline_finds_file_witness:
  "file_data floppy_disk = floppy_image \<and> file_pos floppy_disk = 0 \<and> file_seekable floppy_disk \<and>
   length floppy_image = 1474560 \<and>
   bytesPerSector (BootSector_of_bytes floppy_image) = 512 \<and>
   reservedSectors (BootSector_of_bytes floppy_image) = 1 \<and>
   fatCount (BootSector_of_bytes floppy_image) = 2 \<and>
   sectorsPerFat (BootSector_of_bytes floppy_image) = 9 \<and>
   dirEntryCount (BootSector_of_bytes floppy_image) = 224 \<and>
   floppy_root = take 7168 (drop 9728 floppy_image) \<and>
   de_name (RootDirectory_at floppy_root 1) = bytes_of_string ''FILE    TXT'' \<and>
   de_size (RootDirectory_at floppy_root 1) = 4096 \<and>
   FindFile (bytes_of_string ''FILE    TXT'') floppy_loaded = Inr (Some 1) \<and>
   FindFile (bytes_of_string ''NOFILE  TXT'') floppy_loaded = Inr None \<and>
   main 3 (Some floppy_disk) (bytes_of_string ''FILE    TXT'') initial_globals =
     Inr (0, Some (floppy_disk\<lparr>file_pos := 16896\<rparr>), floppy_loaded) \<and>
   main 3 (Some floppy_disk) (bytes_of_string ''NOFILE  TXT'') initial_globals =
     Inr (- 5, Some (floppy_disk\<lparr>file_pos := 16896\<rparr>), floppy_loaded)"
proof -
  have loaded: "floppy_loaded =
      initial_globals\<lparr>g_BootSector := BootSector_of_bytes floppy_image,
                      g_Fat := Some (take 4608 (drop 512 floppy_image)),
                      g_RootDirectory := Some floppy_root\<rparr>"
    by (simp add: floppy_image_decodes floppy_image_fat floppy_loaded_eq)
  have k: "(1 :: nat) < 224" by simp
  note run = floppy_pipeline_finds_file [OF floppy_disk_simps(1) floppy_disk_simps(2)
      floppy_disk_simps(3) length_floppy_image
      floppy_BootSector_simps(1) [folded floppy_image_decodes]
      floppy_BootSector_simps(2) [folded floppy_image_decodes]
      floppy_BootSector_simps(3) [folded floppy_image_decodes]
      floppy_BootSector_simps(4) [folded floppy_image_decodes]
      floppy_BootSector_simps(5) [folded floppy_image_decodes]
      floppy_image_root [symmetric] k floppy_root_names(2) floppy_file_size
      floppy_root_first_FILE floppy_root_no_NOFILE loaded]
  show ?thesis
    using run floppy_root_names(2) floppy_file_size
    by (simp add: floppy_disk_simps length_floppy_image floppy_image_decodes
        floppy_BootSector_simps floppy_image_root)
qed

lemma floppy_FindFile:
  "FindFile (bytes_of_string ''FILE    TXT'') floppy_loaded = Inr (Some 1)"
  "FindFile (bytes_of_string ''NOFILE  TXT'') floppy_loaded = Inr None"
proof -
  have rd: "g_RootDirectory floppy_loaded = Some floppy_root"
    by (rule floppy_loaded_simps(3))
  have d: "unat (dirEntryCount (g_BootSector floppy_loaded)) = 224"
    by (simp add: floppy_loaded_simps floppy_BootSector_simps)
  have cap: "32 * unat (dirEntryCount (g_BootSector floppy_loaded)) \<le> length floppy_root"
    by (simp add: d length_floppy_root)
  have l1: "length (bytes_of_string ''FILE    TXT'') = 11"
    and l2: "length (bytes_of_string ''NOFILE  TXT'') = 11"
    by (simp_all add: bytes_of_string_def)
  show "FindFile (bytes_of_string ''FILE    TXT'') floppy_loaded = Inr (Some 1)"
    using FindFile_from_first [OF rd cap l1, of 1 0] floppy_root_names(2) floppy_root_first_FILE
    by (simp add: d FindFile_def)
  show "FindFile (bytes_of_string ''NOFILE  TXT'') floppy_loaded = Inr None"
    using FindFile_from_none [OF rd cap l2, of 0] floppy_root_no_NOFILE
    by (simp add: d FindFile_def)
qed

theorem BootSector_unchanged_after_decode_witness:
  "ReadFAT (floppy_disk\<lparr>file_pos := 62\<rparr>) floppy_decoded =
     Inr (True, floppy_disk\<lparr>file_pos := 5120\<rparr>, floppy_decoded\<lparr>g_Fat := Some floppy_fat\<rparr>) \<and>
   g_BootSector (floppy_decoded\<lparr>g_Fat := Some floppy_fat\<rparr>) = g_BootSector floppy_decoded \<and>
   ReadRootDirectory (floppy_disk\<lparr>file_pos := 5120\<rparr>) (floppy_decoded\<lparr>g_Fat := Some floppy_fat\<rparr>) =
     Inr (True, floppy_disk\<lparr>file_pos := 16896\<rparr>, floppy_loaded) \<and>
   g_BootSector floppy_loaded = g_BootSector (floppy_decoded\<lparr>g_Fat := Some floppy_fat\<rparr>) \<and>
   (3 :: nat) \<le> 3 \<and>
   ReadBootSector floppy_disk initial_globals =
     Inr (True, floppy_disk\<lparr>file_pos := 62\<rparr>, floppy_decoded) \<and>
   main 3 (Some floppy_disk) (bytes_of_string ''FILE    TXT'') initial_globals =
     Inr (0, Some (floppy_disk\<lparr>file_pos := 16896\<rparr>), floppy_loaded) \<and>
   g_BootSector floppy_loaded = g_BootSector floppy_decoded"
  using BootSector_unchanged_after_decode
      [of "floppy_disk\<lparr>file_pos := 62\<rparr>" floppy_decoded True
          "floppy_disk\<lparr>file_pos := 5120\<rparr>" "floppy_decoded\<lparr>g_Fat := Some floppy_fat\<rparr>"
          3 floppy_disk initial_globals "floppy_disk\<lparr>file_pos := 62\<rparr>" floppy_decoded
          "bytes_of_string ''FILE    TXT''" 0 "Some (floppy_disk\<lparr>file_pos := 16896\<rparr>)"
          floppy_loaded]
    BootSector_unchanged_after_decode
      [of "floppy_disk\<lparr>file_pos := 5120\<rparr>" "floppy_decoded\<lparr>g_Fat := Some floppy_fat\<rparr>" True
          "floppy_disk\<lparr>file_pos := 16896\<rparr>" floppy_loaded]
    floppy_run(1) floppy_run(2) floppy_run(3)
    floppy_run(4) [of "bytes_of_string ''FILE    TXT''"] floppy_FindFile(1)
  by simp

theorem FindFile_within_RootDirectory_witness:
  "bytesPerSector (g_BootSector (floppy_decoded\<lparr>g_Fat := Some floppy_fat\<rparr>)) \<noteq> 0 \<and>
   ReadRootDirectory (floppy_disk\<lparr>file_pos := 5120\<rparr>) (floppy_decoded\<lparr>g_Fat := Some floppy_fat\<rparr>) =
     Inr (True, floppy_disk\<lparr>file_pos := 16896\<rparr>, floppy_loaded) \<and>
   g_RootDirectory floppy_loaded = Some floppy_root \<and>
   length floppy_root = 7168 \<and>
   sizeof_DirectoryEntry * 223 + sizeof_DirectoryEntry \<le> length floppy_root \<and>
   length (bytes_of_string ''FILE    TXT'') = 11 \<and>
   (\<exists>r. FindFile (bytes_of_string ''FILE    TXT'') floppy_loaded = Inr r)"
  using FindFile_within_RootDirectory
      [where g = "floppy_decoded\<lparr>g_Fat := Some floppy_fat\<rparr>"
         and disk = "floppy_disk\<lparr>file_pos := 5120\<rparr>" and ok = True
         and disk' = "floppy_disk\<lparr>file_pos := 16896\<rparr>" and g' = floppy_loaded
         and name = "bytes_of_string ''FILE    TXT''"]
    floppy_run(3)
  by (auto simp: floppy_loaded_simps floppy_decoded_simps floppy_BootSector_simps
      length_floppy_root sizeof_DirectoryEntry_32 bytes_of_string_def)

subsection \<open>The size of the allocation table and the propagation of failure\<close>

lemma ReadFAT_buffer:
  assumes "ReadFAT disk g = Inr (ok, disk', g')"
  shows "\<exists>buf. g_Fat g' = Some buf \<and>
           length buf = unat (sectorsPerFat (g_BootSector g)) * unat (bytesPerSector (g_BootSector g))"
proof -
  let ?n = "unat (sectorsPerFat (g_BootSector g)) * unat (bytesPerSector (g_BootSector g))"
  have le: "?n \<le> 2147483647"
  proof (rule ccontr)
    assume "\<not> ?n \<le> 2147483647"
    then have "ReadFAT disk g = Inl SignedOverflow" by (intro ReadFAT_overflow) simp
    with assms show False by simp
  qed
  from ReadFAT_returns [OF le, of disk] assms show ?thesis by auto
qed

lemma ReadFAT_truncated:
  assumes "unat (reservedSectors (g_BootSector g)) < 256"
    and "unat (sectorsPerFat (g_BootSector g)) * unat (bytesPerSector (g_BootSector g)) \<le> 2147483647"
    and "length (drop (unat (reservedSectors (g_BootSector g)) * unat (bytesPerSector (g_BootSector g)))
                   (file_data disk))
         < unat (sectorsPerFat (g_BootSector g)) * unat (bytesPerSector (g_BootSector g))"
  shows "\<exists>disk' g'. ReadFAT disk g = Inr (False, disk', g')"
proof -
  let ?spf = "sectorsPerFat (g_BootSector g)" and ?bps = "bytesPerSector (g_BootSector g)"
  have "0 < unat ?spf * unat ?bps" using assms(3) by linarith
  then have nz: "0 < unat ?spf" "0 < unat ?bps" by simp_all
  have "unat (ucast ?spf :: uint32_t) \<noteq> 0" using nz(1) by (simp add: unat_ucast_16_32)
  then have nzw1: "ucast ?spf \<noteq> (0 :: uint32_t)" by (metis unat_0)
  have nzw2: "?bps \<noteq> 0" using nz(2) by (simp add: unat_gt_0)
  have lba: "unat (ucast (reservedSectors (g_BootSector g)) :: uint8_t)
               = unat (reservedSectors (g_BootSector g))"
    using assms(1) by (simp add: unat_ucast_16_8)
  have fits: "unat (ucast ?spf :: uint32_t) * unat ?bps \<le> length (malloc (unat ?spf * unat ?bps))"
    by (simp add: malloc_def unat_ucast_16_32)
  have "\<exists>disk' buf'. ReadDiskSectors disk (ucast (reservedSectors (g_BootSector g))) (ucast ?spf)
                  (malloc (unat ?spf * unat ?bps)) g = Inr (False, disk', buf')"
    using assms(3) nzw1 nzw2
    by (simp add: ReadDiskSectors_result [OF fits] Let_def lba unat_ucast_16_32)
  then show ?thesis
    by (auto simp: ReadFAT_result [OF assms(2)])
qed

lemma main_stops_after_ReadFAT:
  assumes "3 \<le> argc" "ReadBootSector disk g = Inr (True, disk1, g1)"
    and "ReadFAT disk1 g1 = Inr (False, disk2, g2)"
  shows "main argc (Some disk) name g = Inr (- 3, Some disk2, g2)"
  using assms by (simp add: main_def)

lemma main_stops_after_ReadBootSector:
  assumes "3 \<le> argc" "ReadBootSector disk g = Inr (False, disk1, g1)"
  shows "main argc (Some disk) name g = Inr (- 2, Some disk1, g1)"
  using assms by (simp add: main_def)

lemma main_stops_after_ReadRootDirectory:
  assumes "3 \<le> argc" "ReadBootSector disk g = Inr (True, disk1, g1)"
    and "ReadFAT disk1 g1 = Inr (True, disk2, g2)"
    and "ReadRootDirectory disk2 g2 = Inr (False, disk3, g3)"
  shows "main argc (Some disk) name g = Inr (- 4, Some disk3, g3)"
  using assms by (simp add: main_def)

subsection \<open>A volume with 256 reserved sectors\<close>

lemma length_wide_boot: "length wide_boot = 62"
  by (simp add: wide_boot_def length_floppy_boot)

lemma length_wide_image: "length wide_image = 1474560"
  by (simp add: wide_image_def length_wide_boot length_floppy_fat length_floppy_root)

lemma wide_image_decodes: "BootSector_of_bytes (wide_boot @ rest) = wide_BootSector"
proof -
  have "BootSector_at_offsets (wide_boot @ rest) = wide_BootSector"
    by (simp add: BootSector_at_offsets_def wide_BootSector_def floppy_BootSector_def
        wide_boot_def floppy_boot_bytes bytes_of_string_def nth_append word_cat_eq)
  then show ?thesis
    by (simp add: BootSector_of_bytes_offsets length_wide_boot)
qed

lemma wide_BootSector_simps:
  "bytesPerSector wide_BootSector = 512"
  "reservedSectors wide_BootSector = 256"
  "fatCount wide_BootSector = 2"
  "sectorsPerFat wide_BootSector = 9"
  "dirEntryCount wide_BootSector = 224"
  by (simp_all add: wide_BootSector_def floppy_BootSector_def)

lemma wide_decoded_simps:
  "g_BootSector wide_decoded = wide_BootSector"
  "g_Fat wide_decoded = None"
  "g_RootDirectory wide_decoded = None"
  by (simp_all add: wide_decoded_def initial_globals_def)

lemma wide_image_regions:
  "take 4608 (drop 131072 wide_image) = floppy_fat"
  "take 7168 (drop 140288 wide_image) = floppy_root"
  "take 4608 wide_image = wide_boot @ replicate 4546 0"
  "take 7168 (drop 9216 wide_image) = replicate 7168 0"
  by (simp_all add: wide_image_def length_wide_boot length_floppy_fat length_floppy_root)

lemma wide_fat_differs: "wide_boot @ replicate 4546 0 \<noteq> floppy_fat"
  by (simp add: wide_boot_def floppy_boot_bytes floppy_fat_def)

lemma wide_truncated_data:
  "file_data wide_truncated_disk = wide_boot @ replicate 131010 0"
  "file_pos wide_truncated_disk = 0"
  "file_seekable wide_truncated_disk"
  by (simp_all add: wide_truncated_disk_def wide_image_def length_wide_boot)

lemma wide_disk_simps:
  "file_data wide_disk = wide_image"
  "file_pos wide_disk = 0"
  "file_seekable wide_disk"
  by (simp_all add: wide_disk_def)

lemma wide_geometry:
  "unat (RootDirectory_lba wide_BootSector) = 274"
  "unat (RootDirectory_sectors wide_BootSector) = 14"
  by (simp_all add: unat_RootDirectory_lba RootDirectory_sectors_examples(1) wide_BootSector_simps)

lemma wide_ReadBootSector:
  assumes "file_data d = wide_boot @ rest" "file_pos d = 0"
  shows "ReadBootSector d initial_globals = Inr (True, d\<lparr>file_pos := 62\<rparr>, wide_decoded)"
  using ReadBootSector_ok [of d initial_globals] assms
  by (simp add: length_wide_boot wide_image_decodes wide_decoded_def)

lemma wide_ReadFAT:
  assumes "file_seekable d" "4608 \<le> length (file_data d)" "g_BootSector g = wide_BootSector"
  shows "ReadFAT d g =
     Inr (True, d\<lparr>file_pos := 4608\<rparr>, g\<lparr>g_Fat := Some (take 4608 (file_data d))\<rparr>)"
  using ReadFAT_ok [of d g] assms by (simp add: wide_BootSector_simps)

lemma wide_ReadRootDirectory:
  assumes "file_seekable d" "16384 \<le> length (file_data d)" "g_BootSector g = wide_BootSector"
  shows "ReadRootDirectory d g =
     Inr (True, d\<lparr>file_pos := 16384\<rparr>,
          g\<lparr>g_RootDirectory := Some (take 7168 (drop 9216 (file_data d)))\<rparr>)"
  using ReadRootDirectory_ok [of d g] assms
  by (simp add: wide_BootSector_simps wide_geometry)

lemma zeroed_root_names:
  assumes "j < 224"
  shows "de_name (RootDirectory_at (replicate 7168 0) j) = replicate 11 0"
proof -
  have "11 \<le> 7168 - 32 * j" using assms by simp
  then show ?thesis by (simp add: de_name_RootDirectory_at min_absorb1)
qed

lemma zeroed_root_FindFile:
  assumes "g_BootSector g = wide_BootSector" "g_RootDirectory g = Some (replicate 7168 0)"
  shows "FindFile (bytes_of_string ''FILE    TXT'') g = Inr None"
proof -
  have d: "unat (dirEntryCount (g_BootSector g)) = 224"
    by (simp add: assms(1) wide_BootSector_simps)
  have cap: "32 * unat (dirEntryCount (g_BootSector g)) \<le> length (replicate 7168 0 :: bytes)"
    by (simp add: d)
  have l: "length (bytes_of_string ''FILE    TXT'') = 11"
    by (simp add: bytes_of_string_def)
  have "\<forall>j. 0 \<le> j \<and> j < unat (dirEntryCount (g_BootSector g)) \<longrightarrow>
          de_name (RootDirectory_at (replicate 7168 0) j) \<noteq> bytes_of_string ''FILE    TXT''"
    by (simp add: d zeroed_root_names bytes_of_string_def replicate_11)
  then show ?thesis
    using FindFile_from_none [OF assms(2) cap l, of 0] by (simp add: FindFile_def)
qed

text \<open>
  Claim C6 at a boot sector with 256 reserved sectors. The allocation table of the
  image starts at sector 256, but \<open>reservedSectors\<close> is narrowed to the 8-bit \<open>lba\<close>
  parameter, so \<open>ReadFAT\<close> reads the 9 sectors that start at sector 0 and returns true
  with the boot sector at the front of \<open>g_Fat\<close>.
\<close>

theorem ReadFAT_256_reserved_sectors:
  "ReadBootSector wide_disk initial_globals = Inr (True, wide_disk\<lparr>file_pos := 62\<rparr>, wide_decoded) \<and>
   reservedSectors (g_BootSector wide_decoded) = 256 \<and>
   sectorsPerFat (g_BootSector wide_decoded) = 9 \<and>
   bytesPerSector (g_BootSector wide_decoded) = 512 \<and>
   length (file_data wide_disk) = 2880 * 512 \<and>
   take (9 * 512) (drop (256 * 512) (file_data wide_disk)) = floppy_fat \<and>
   ReadFAT (wide_disk\<lparr>file_pos := 62\<rparr>) wide_decoded =
     Inr (True, wide_disk\<lparr>file_pos := 9 * 512\<rparr>,
          wide_decoded\<lparr>g_Fat := Some (wide_boot @ replicate 4546 0)\<rparr>) \<and>
   wide_boot @ replicate 4546 0 \<noteq> floppy_fat"
proof -
  have "file_data wide_disk = wide_boot @ replicate (256 * 512 - 62) 0 @ floppy_fat @ floppy_fat
          @ floppy_root @ replicate ((2880 - 256 - 32) * 512) 0"
    by (simp add: wide_disk_simps wide_image_def)
  then have 1: "ReadBootSector wide_disk initial_globals =
      Inr (True, wide_disk\<lparr>file_pos := 62\<rparr>, wide_decoded)"
    using wide_disk_simps(2) by (rule wide_ReadBootSector)
  show ?thesis
    using 1 wide_ReadFAT [of "wide_disk\<lparr>file_pos := 62\<rparr>" wide_decoded]
    by (simp add: wide_disk_simps wide_decoded_simps wide_BootSector_simps length_wide_image
        wide_image_regions wide_fat_differs)
qed

text \<open>
  Claim C2 at the same boot sector. The local \<open>lba\<close> is 256 + 9 * 2 = 274, where the
  root directory of the image lies, but the 8-bit parameter receives 274 mod 256 = 18:
  \<open>ReadRootDirectory\<close> reads the 14 sectors that start at sector 18.
\<close>

theorem ReadRootDirectory_lba_274:
  "unat (RootDirectory_lba (g_BootSector wide_decoded)) = 274 \<and>
   unat (RootDirectory_sectors (g_BootSector wide_decoded)) = 14 \<and>
   take (14 * 512) (drop (274 * 512) (file_data wide_disk)) = floppy_root \<and>
   take (14 * 512) (drop (18 * 512) (file_data wide_disk)) = replicate 7168 0 \<and>
   ReadRootDirectory (wide_disk\<lparr>file_pos := 9 * 512\<rparr>) wide_decoded =
     Inr (True, wide_disk\<lparr>file_pos := 18 * 512 + 14 * 512\<rparr>,
          wide_decoded\<lparr>g_RootDirectory := Some (replicate 7168 0)\<rparr>) \<and>
   replicate 7168 0 \<noteq> floppy_root"
proof -
  have "floppy_root ! 0 \<noteq> 0"
    by (simp add: floppy_root_def kernel_entry_def bytes_of_string_def)
  moreover have "(replicate 7168 0 :: bytes) ! 0 = 0" by simp
  ultimately have ne: "replicate 7168 0 \<noteq> floppy_root" by metis
  show ?thesis
    using wide_ReadRootDirectory [of "wide_disk\<lparr>file_pos := 4608\<rparr>" wide_decoded] ne
    by (simp add: wide_disk_simps wide_decoded_simps wide_geometry length_wide_image
        wide_image_regions)
qed

text \<open>
  Claim C7 on the same geometry with the image cut off at the end of the reserved
  region: no byte of the allocation table is there, yet \<open>ReadFAT\<close> returns true (it read
  sector 0 onwards), and \<open>main\<close> goes on to load the root directory and to look the
  name up, ending with exit status -5 instead of -3.
\<close>

theorem main_truncated_after_reserved_region:
  "length (file_data wide_truncated_disk) = 256 * 512 \<and>
   ReadBootSector wide_truncated_disk initial_globals =
     Inr (True, wide_truncated_disk\<lparr>file_pos := 62\<rparr>, wide_decoded) \<and>
   reservedSectors (g_BootSector wide_decoded) = 256 \<and>
   length (drop (256 * 512) (file_data wide_truncated_disk)) = 0 \<and>
   ReadFAT (wide_truncated_disk\<lparr>file_pos := 62\<rparr>) wide_decoded =
     Inr (True, wide_truncated_disk\<lparr>file_pos := 9 * 512\<rparr>,
          wide_decoded\<lparr>g_Fat := Some (wide_boot @ replicate 4546 0)\<rparr>) \<and>
   main 3 (Some wide_truncated_disk) (bytes_of_string ''FILE    TXT'') initial_globals =
     Inr (- 5, Some (wide_truncated_disk\<lparr>file_pos := 16384\<rparr>),
          wide_decoded\<lparr>g_Fat := Some (wide_boot @ replicate 4546 0),
                        g_RootDirectory := Some (replicate 7168 0)\<rparr>)"
proof -
  let ?d = wide_truncated_disk
  have len: "length (file_data ?d) = 131072"
    by (simp add: wide_truncated_data length_wide_boot)
  have 1: "ReadBootSector ?d initial_globals = Inr (True, ?d\<lparr>file_pos := 62\<rparr>, wide_decoded)"
    by (rule wide_ReadBootSector [OF wide_truncated_data(1) wide_truncated_data(2)])
  have 2: "ReadFAT (?d\<lparr>file_pos := 62\<rparr>) wide_decoded =
     Inr (True, ?d\<lparr>file_pos := 4608\<rparr>, wide_decoded\<lparr>g_Fat := Some (wide_boot @ replicate 4546 0)\<rparr>)"
    using wide_ReadFAT [of "?d\<lparr>file_pos := 62\<rparr>" wide_decoded] len
    by (simp add: wide_truncated_data wide_decoded_simps length_wide_boot)
  have 3: "ReadRootDirectory (?d\<lparr>file_pos := 4608\<rparr>)
             (wide_decoded\<lparr>g_Fat := Some (wide_boot @ replicate 4546 0)\<rparr>) =
     Inr (True, ?d\<lparr>file_pos := 16384\<rparr>,
          wide_decoded\<lparr>g_Fat := Some (wide_boot @ replicate 4546 0),
                        g_RootDirectory := Some (replicate 7168 0)\<rparr>)"
    using wide_ReadRootDirectory [of "?d\<lparr>file_pos := 4608\<rparr>"
        "wide_decoded\<lparr>g_Fat := Some (wide_boot @ replicate 4546 0)\<rparr>"] len
    by (simp add: wide_truncated_data wide_decoded_simps length_wide_boot)
  have 4: "FindFile (bytes_of_string ''FILE    TXT'')
             (wide_decoded\<lparr>g_Fat := Some (wide_boot @ replicate 4546 0),
                           g_RootDirectory := Some (replicate 7168 0)\<rparr>) = Inr None"
    by (rule zeroed_root_FindFile) (simp_all add: wide_decoded_simps)
  have 5: "main 3 (Some ?d) (bytes_of_string ''FILE    TXT'') initial_globals =
     Inr (- 5, Some (?d\<lparr>file_pos := 16384\<rparr>),
          wide_decoded\<lparr>g_Fat := Some (wide_boot @ replicate 4546 0),
                        g_RootDirectory := Some (replicate 7168 0)\<rparr>)"
    by (simp add: main_def 1 2 3 4)
  show ?thesis
    using 1 2 5 len by (simp add: wide_decoded_simps wide_BootSector_simps)
qed

end
